theory Spec2Isabelle
  imports Main
begin

section \<open>Text, rows and sizes\<close>

text \<open>
  A Python \<open>str\<close> that holds CSV data is the list of its Unicode code points; the rows
  come from a file decoded as UTF-8, so no code point is a surrogate and
  \<open>encode("utf-8")\<close> cannot raise. Paths, URLs, tokens and names are \<open>string\<close>s.
  A row is what \<open>csv.reader\<close> yields: a list of fields.
\<close>

type_synonym pystr = "nat list"
type_synonym row = "pystr list"

definition utf8_bytes :: "nat \<Rightarrow> nat list" where
  "utf8_bytes c =
     (if c < 128 then [c]
      else if c < 2048 then [192 + c div 64, 128 + c mod 64]
      else if c < 65536 then [224 + c div 4096, 128 + (c div 64) mod 64, 128 + c mod 64]
      else [240 + c div 262144, 128 + (c div 4096) mod 64, 128 + (c div 64) mod 64,
            128 + c mod 64])"

definition encode_utf8 :: "pystr \<Rightarrow> nat list" where
  "encode_utf8 s = concat (map utf8_bytes s)"

text \<open>\<open>sep.join(xs)\<close>\<close>

fun str_join :: "'a list \<Rightarrow> 'a list list \<Rightarrow> 'a list" where
  "str_join sep [] = []"
| "str_join sep [x] = x"
| "str_join sep (x # y # ys) = x @ sep @ str_join sep (y # ys)"

text \<open>\<open>len(",".join(row).encode("utf-8")) + 1\<close>, line 212 (44 is the comma).\<close>

definition row_size :: "row \<Rightarrow> nat" where
  "row_size r = length (encode_utf8 (str_join [44] r)) + 1"

text \<open>The serialized row payload of a buffer: the sizes of its rows, added up.\<close>

definition payload :: "row list \<Rightarrow> nat" where
  "payload c = sum_list (map row_size c)"

text \<open>\<open>str(n)\<close> for a non-negative integer, as the f-string of the chunk name needs it.\<close>

fun string_of_nat :: "nat \<Rightarrow> string" where
  "string_of_nat n =
     (if n < 10 then [''0123456789'' ! n]
      else string_of_nat (n div 10) @ [''0123456789'' ! (n mod 10)])"

declare string_of_nat.simps [simp del]

section \<open>Paths (posixpath)\<close>

text \<open>\<open>p.rfind("/") + 1\<close>: the length of \<open>p\<close> up to and including its last slash.\<close>

definition after_last_slash :: "string \<Rightarrow> nat" where
  "after_last_slash p = length p - length (takeWhile (\<lambda>c. c \<noteq> CHR ''/'') (rev p))"

definition basename :: "string \<Rightarrow> string" where
  "basename p = drop (after_last_slash p) p"

definition dirname :: "string \<Rightarrow> string" where
  "dirname p =
     (let head = take (after_last_slash p) p
      in if head \<noteq> [] \<and> head \<noteq> replicate (length head) (CHR ''/'')
         then rev (dropWhile (\<lambda>c. c = CHR ''/'') (rev head)) else head)"

text \<open>
  \<open>os.path.splitext(p)[0]\<close> for a \<open>p\<close> without a separator (it is applied to a
  basename): the part before the last dot, when a character other than a dot precedes
  that dot.
\<close>

definition splitext_root :: "string \<Rightarrow> string" where
  "splitext_root p =
     (if CHR ''.'' \<in> set p
      then (let d = length p - length (takeWhile (\<lambda>c. c \<noteq> CHR ''.'') (rev p)) - 1
            in if list_ex (\<lambda>c. c \<noteq> CHR ''.'') (take d p) then take d p else p)
      else p)"

definition os_path_join :: "string \<Rightarrow> string \<Rightarrow> string" where
  "os_path_join a b =
     (if b \<noteq> [] \<and> hd b = CHR ''/'' then b
      else if a = [] \<or> last a = CHR ''/'' then a @ b
      else a @ ''/'' @ b)"

section \<open>Exceptions, responses, the observable trace\<close>

datatype exn =
    RuntimeError
  | TypeError
  | RequestException
  | FileNotFoundError
  | OSError
  | StopIteration
  | Csv_Error
  | RetryError
  | Exception_regenerating nat
  | Exception_status nat

record response =
  status_code :: nat
  resp_text :: string

datatype level = INFO | WARNING | ERROR

datatype log_msg =
    Reading_env
  | JWT_generated
  | JWT_failed
  | Moved string string
  | Failed_to_upload string
  | Error_uploading string
  | Uploaded_successfully string
  | Upload_failed string string
  | Written_chunk string nat string
  | Before_sleep nat

text \<open>
  Everything the program does to the outside, in order. A request carries the reply it
  got (\<open>None\<close>: \<open>requests.post\<close> raised a \<open>RequestException\<close>); a file operation
  carries whether it went through. An upload request carries the URL, the name and the
  content of the file, and the value of its \<open>Authorization\<close> header.
\<close>

datatype event =
    Post_auth string "string option" "string option" "response option"
  | Post_upload string string "row list" string "response option"
  | Makedirs string
  | Write_file string "row list" bool
  | Move string string bool
  | Sleep nat
  | Log level log_msg

text \<open>
  The environment of one run: the process environment, the clock, what the two endpoints
  answer to the n-th request sent to them, and whether the operating system refuses the
  n-th chunk write or the n-th move.
\<close>

record env =
  getenv :: "string \<Rightarrow> string option"
  now :: string
  auth_reply :: "nat \<Rightarrow> response option"
  upload_reply :: "nat \<Rightarrow> response option"
  write_raises :: "nat \<Rightarrow> bool"
  move_raises :: "nat \<Rightarrow> bool"

text \<open>
  The file system (a file is the list of its CSV records) and the trace so far. The
  projections below read the requests and the file operations off a trace; their lengths
  number the next request or operation.
\<close>

record world =
  files :: "string \<Rightarrow> row list option"
  dirs :: "string set"
  trace :: "event list"

fun auths :: "event list \<Rightarrow> response option list" where
  "auths [] = []"
| "auths (Post_auth u n p r # es) = r # auths es"
| "auths (e # es) = auths es"

fun uploads :: "event list \<Rightarrow> (string \<times> string \<times> response option) list" where
  "uploads [] = []"
| "uploads (Post_upload u n c h r # es) = (n, h, r) # uploads es"
| "uploads (e # es) = uploads es"

fun writes :: "event list \<Rightarrow> (string \<times> row list \<times> bool) list" where
  "writes [] = []"
| "writes (Write_file p c ok # es) = (p, c, ok) # writes es"
| "writes (e # es) = writes es"

fun moves :: "event list \<Rightarrow> (string \<times> string \<times> bool) list" where
  "moves [] = []"
| "moves (Move s d ok # es) = (s, d, ok) # moves es"
| "moves (e # es) = moves es"

definition emit :: "event list \<Rightarrow> world \<Rightarrow> world" where
  "emit es w = w\<lparr>trace := trace w @ es\<rparr>"

section \<open>The uploader\<close>

text \<open>
  The class \<open>CsvUploader\<close> of \<open>scripts/main.py\<close>. Methods keep their names, without the
  leading underscore; \<open>init\<close> is \<open>__init__\<close>. Each takes the environment, the object
  and the world, and returns its result or the exception it raises, together with the
  object and the world as it leaves them.
\<close>

record args =
  arg_csvPath :: "string option"
  arg_header :: "int option"
  arg_baseUrl :: string
  arg_username :: "string option"
  arg_password :: "string option"
  arg_connectionUuid :: string
  arg_profileUuid :: string
  arg_envQualysUsernameProperty :: "string option"
  arg_envQualysPasswordProperty :: "string option"

record CsvUploader =
  CSV_PATH :: "string option"
  HEADER :: int
  MAX_CHUNK_SIZE :: nat
  BASE_URL :: string
  USERNAME :: "string option"
  PASSWORD :: "string option"
  CONNECTION_UUID :: string
  PROFILE_UUID :: string
  QAS_JWT_TOKEN_URI :: string
  PROCESSED_DIR :: string
  envQualysUsernameProperty :: "string option"
  envQualysPasswordProperty :: "string option"
  generated_jwt :: string

text \<open>
  \<open>_fill_username_password\<close>, lines 119-130. It returns the object with the two
  credentials read from the environment, or raises.
\<close>

definition fill_username_password ::
  "env \<Rightarrow> CsvUploader \<Rightarrow> world \<Rightarrow> (exn + CsvUploader) \<times> world" where
  "fill_username_password E self w =
     (case (envQualysUsernameProperty self, envQualysPasswordProperty self) of
        (Some uprop, Some pprop) \<Rightarrow>
          (let w1 = emit [Log INFO Reading_env] w;
               self1 = self\<lparr>USERNAME := getenv E uprop, PASSWORD := getenv E pprop\<rparr>
           in if USERNAME self1 = None \<or> PASSWORD self1 = None
              then (Inl RuntimeError, w1)
              else (Inr self1, w1))
      | _ \<Rightarrow> (Inr self, w))"

text \<open>
  \<open>response.raise_for_status()\<close> raises for a status from 400 to 599; otherwise
  \<open>_generate_jwt\<close> returns the body of the response.
\<close>

definition issued :: "response option \<Rightarrow> exn + string" where
  "issued reply =
     (case reply of
        None \<Rightarrow> Inl RequestException
      | Some r \<Rightarrow>
          if 400 \<le> status_code r \<and> status_code r < 600 then Inl RequestException
          else Inr (resp_text r))"

text \<open>\<open>_generate_jwt\<close>, lines 132-147.\<close>

definition generate_jwt :: "env \<Rightarrow> CsvUploader \<Rightarrow> world \<Rightarrow> (exn + string) \<times> world" where
  "generate_jwt E self w =
     (let url = BASE_URL self @ QAS_JWT_TOKEN_URI self;
          reply = auth_reply E (length (auths (trace w)));
          w1 = emit [Post_auth url (USERNAME self) (PASSWORD self) reply] w
      in case issued reply of
           Inr jwt \<Rightarrow> (Inr jwt, emit [Log INFO JWT_generated] w1)
         | Inl e \<Rightarrow> (Inl e, emit [Log ERROR JWT_failed] w1))"

text \<open>
  \<open>__init__\<close>, lines 99-117. The attribute \<open>generated_jwt\<close> does not exist until the
  last line; the record holds the empty string until then, and nothing reads it.
\<close>

definition init :: "env \<Rightarrow> args \<Rightarrow> world \<Rightarrow> (exn + CsvUploader) \<times> world" where
  "init E a w =
     (let self = \<lparr>CSV_PATH = arg_csvPath a,
                  HEADER = (case arg_header a of None \<Rightarrow> 1 | Some h \<Rightarrow> h),
                  MAX_CHUNK_SIZE = 9 * 1024 * 1024,
                  BASE_URL = arg_baseUrl a,
                  USERNAME = arg_username a,
                  PASSWORD = arg_password a,
                  CONNECTION_UUID = arg_connectionUuid a,
                  PROFILE_UUID = arg_profileUuid a,
                  QAS_JWT_TOKEN_URI = ''/auth'',
                  PROCESSED_DIR = ''uploaded'',
                  envQualysUsernameProperty = arg_envQualysUsernameProperty a,
                  envQualysPasswordProperty = arg_envQualysPasswordProperty a,
                  generated_jwt = []\<rparr>
      in case fill_username_password E self w of
           (Inl e, w1) \<Rightarrow> (Inl e, w1)
         | (Inr self1, w1) \<Rightarrow>
             (case generate_jwt E self1 w1 of
                (Inl e, w2) \<Rightarrow> (Inl e, w2)
              | (Inr jwt, w2) \<Rightarrow> (Inr (self1\<lparr>generated_jwt := jwt\<rparr>), w2)))"

text \<open>
  \<open>_prepare_output_directory\<close>, lines 245-251. \<open>os.path.basename(None)\<close> raises a
  \<open>TypeError\<close>. \<open>os.makedirs\<close> creates the run directory together with the
  sub-directory named by \<open>PROCESSED_DIR\<close>.
\<close>

definition prepare_output_directory ::
  "env \<Rightarrow> CsvUploader \<Rightarrow> world \<Rightarrow> (exn + string \<times> string) \<times> world" where
  "prepare_output_directory E self w =
     (case CSV_PATH self of
        None \<Rightarrow> (Inl TypeError, w)
      | Some p \<Rightarrow>
          (let timestamp = now E;
               filename = splitext_root (basename p);
               directory = dirname p;
               output_dir = os_path_join directory (filename @ ''_'' @ timestamp);
               processed = os_path_join output_dir (PROCESSED_DIR self)
           in (Inr (output_dir, filename),
               emit [Makedirs processed]
                 (w\<lparr>dirs := insert output_dir (insert processed (dirs w))\<rparr>))))"

text \<open>
  \<open>_write_chunk\<close>, lines 232-243: the header row, then the rows of the buffer. A write
  that the operating system refuses raises and leaves no file.
\<close>

definition write_chunk ::
  "env \<Rightarrow> row list \<Rightarrow> nat \<Rightarrow> row \<Rightarrow> string \<Rightarrow> string \<Rightarrow> world \<Rightarrow> (exn + string) \<times> world" where
  "write_chunk E chunk chunk_index headers filename output_dir w =
     (let chunk_filename = filename @ ''_'' @ string_of_nat chunk_index @ ''.csv'';
          chunk_file_path = os_path_join output_dir chunk_filename
      in if write_raises E (length (writes (trace w)))
         then (Inl OSError, emit [Write_file chunk_file_path [] False] w)
         else (Inr chunk_filename,
               emit [Write_file chunk_file_path (headers # chunk) True,
                     Log INFO (Written_chunk chunk_filename (length chunk) chunk_file_path)]
                 (w\<lparr>files := (files w)(chunk_file_path \<mapsto> headers # chunk)\<rparr>)))"

text \<open>
  \<open>shutil.move(src, dst)\<close>: it raises when the source is not there and when the
  operating system refuses the move (a missing destination directory, a permission);
  otherwise the file is at \<open>dst\<close> and no longer at \<open>src\<close>.
\<close>

definition shutil_move :: "env \<Rightarrow> string \<Rightarrow> string \<Rightarrow> world \<Rightarrow> (exn + unit) \<times> world" where
  "shutil_move E src dst w =
     (case files w src of
        None \<Rightarrow> (Inl FileNotFoundError, emit [Move src dst False] w)
      | Some content \<Rightarrow>
          if move_raises E (length (moves (trace w)))
          then (Inl OSError, emit [Move src dst False] w)
          else (Inr (),
                emit [Move src dst True]
                  (w\<lparr>files := ((files w)(src := None))(dst \<mapsto> content)\<rparr>)))"

text \<open>The URL of the upload endpoint, line 178.\<close>

definition upload_url :: "CsvUploader \<Rightarrow> string" where
  "upload_url self =
     BASE_URL self @ ''/connector-config/connector/integration/''
       @ CONNECTION_UUID self @ ''/'' @ PROFILE_UUID self @ ''/file-upload''"

text \<open>
  The body of \<open>upload_call\<close>, lines 173-197: one attempt. Opening a file that is not
  there raises; so does a transport error; status 200 returns the response; status 401
  stores the token that \<open>_generate_jwt\<close> returns and raises; any other status raises.
\<close>

definition upload_call_body ::
  "env \<Rightarrow> CsvUploader \<Rightarrow> world \<Rightarrow> string \<Rightarrow> string \<Rightarrow> (exn + response) \<times> CsvUploader \<times> world"
where
  "upload_call_body E self w chunk_file_path chunk_filename =
     (case files w chunk_file_path of
        None \<Rightarrow> (Inl FileNotFoundError, self, w)
      | Some f \<Rightarrow>
          (let headers = ''Bearer '' @ generated_jwt self;
               url = upload_url self;
               reply = upload_reply E (length (uploads (trace w)));
               w1 = emit [Post_upload url chunk_filename f headers reply] w
           in case reply of
                None \<Rightarrow>
                  (Inl RequestException, self, emit [Log ERROR (Error_uploading chunk_filename)] w1)
              | Some response \<Rightarrow>
                  if status_code response = 200
                  then (Inr response, self,
                        emit [Log INFO (Uploaded_successfully chunk_file_path)] w1)
                  else if status_code response = 401
                  then (case generate_jwt E self w1 of
                          (Inl e, w2) \<Rightarrow> (Inl e, self, w2)
                        | (Inr jwt, w2) \<Rightarrow>
                            (Inl (Exception_regenerating (status_code response)),
                             self\<lparr>generated_jwt := jwt\<rparr>, w2))
                  else (Inl (Exception_status (status_code response)), self,
                        emit [Log WARNING (Upload_failed chunk_file_path (resp_text response))]
                          w1)))"

text \<open>
  \<open>upload_call\<close> under its decorator, lines 164-171: every exception is retried
  (\<open>retry_if_exception_type(Exception)\<close>) until the attempt number reaches 3
  (\<open>stop_after_attempt(3)\<close>), when \<open>RetryError\<close> is raised; before each retry the
  attempt is logged and the process sleeps \<open>10 * 2 ^ (attempt - 1)\<close> seconds
  (\<open>wait_exponential(multiplier=10)\<close>).
\<close>

function upload_call_from ::
  "nat \<Rightarrow> env \<Rightarrow> CsvUploader \<Rightarrow> world \<Rightarrow> string \<Rightarrow> string
     \<Rightarrow> (exn + response) \<times> CsvUploader \<times> world" where
  "upload_call_from attempt_number E self w chunk_file_path chunk_filename =
     (case upload_call_body E self w chunk_file_path chunk_filename of
        (Inr r, self1, w1) \<Rightarrow> (Inr r, self1, w1)
      | (Inl e, self1, w1) \<Rightarrow>
          if attempt_number \<ge> 3 then (Inl RetryError, self1, w1)
          else upload_call_from (attempt_number + 1) E self1
                 (emit [Log INFO (Before_sleep attempt_number),
                        Sleep (10 * 2 ^ (attempt_number - 1))] w1)
                 chunk_file_path chunk_filename)"
  by pat_completeness auto
termination
  by (relation "measure (\<lambda>(k, E, self, w, p, n). 3 - k)") auto

declare upload_call_from.simps [simp del]

definition upload_call ::
  "env \<Rightarrow> CsvUploader \<Rightarrow> world \<Rightarrow> string \<Rightarrow> string \<Rightarrow> (exn + response) \<times> CsvUploader \<times> world"
where
  "upload_call E self w chunk_file_path chunk_filename =
     upload_call_from 1 E self w chunk_file_path chunk_filename"

text \<open>
  \<open>upload_csv_file\<close>, lines 149-162: the upload and the move are inside the
  \<open>try\<close>; the handler catches \<open>RetryError\<close> and nothing else.
\<close>

definition upload_csv_file ::
  "env \<Rightarrow> CsvUploader \<Rightarrow> world \<Rightarrow> string \<Rightarrow> string \<Rightarrow> (exn + unit) \<times> CsvUploader \<times> world"
where
  "upload_csv_file E self w chunk_filename output_dir =
     (let processed_chunk_path =
            os_path_join (os_path_join output_dir (PROCESSED_DIR self)) chunk_filename;
          chunk_file_path = os_path_join output_dir chunk_filename;
          tried =
            (case upload_call E self w chunk_file_path chunk_filename of
               (Inl e, self1, w1) \<Rightarrow> (Inl e, self1, w1)
             | (Inr r, self1, w1) \<Rightarrow>
                 (case shutil_move E chunk_file_path processed_chunk_path w1 of
                    (Inl e, w2) \<Rightarrow> (Inl e, self1, w2)
                  | (Inr u, w2) \<Rightarrow>
                      (Inr (), self1,
                       emit [Log INFO (Moved chunk_filename processed_chunk_path)] w2)))
      in case tried of
           (Inl e, self1, w1) \<Rightarrow>
             if e = RetryError
             then (Inr (), self1, emit [Log ERROR (Failed_to_upload chunk_file_path)] w1)
             else (Inl e, self1, w1)
         | (Inr u, self1, w1) \<Rightarrow> (Inr u, self1, w1))"

text \<open>
  The reader of line 205. The source file is the list of the records it holds. The
  reader refuses a record with a field of more than \<open>csv.field_size_limit()\<close>
  characters, which \<open>main.py\<close> leaves at its default 131072: reading such a record
  raises \<open>_csv.Error\<close>. \<open>next\<close> on an exhausted reader raises \<open>StopIteration\<close>.
\<close>

definition field_size_limit :: nat where
  "field_size_limit = 131072"

definition field_too_large :: "row \<Rightarrow> bool" where
  "field_too_large r = list_ex (\<lambda>f. length f > field_size_limit) r"

text \<open>\<open>next(csv_file_reader)\<close>: the record read and the records left.\<close>

fun reader_next :: "row list \<Rightarrow> exn + row \<times> row list" where
  "reader_next [] = Inl StopIteration"
| "reader_next (r # rs) = (if field_too_large r then Inl Csv_Error else Inr (r, rs))"

text \<open>\<open>for _ in range(n): next(csv_file_reader)\<close>, lines 208-209.\<close>

fun skip_rows :: "nat \<Rightarrow> row list \<Rightarrow> exn + row list" where
  "skip_rows 0 rs = Inr rs"
| "skip_rows (Suc n) rs =
     (case reader_next rs of Inl e \<Rightarrow> Inl e | Inr (r, rs') \<Rightarrow> skip_rows n rs')"

text \<open>
  The loop of \<open>process_and_upload_chunks\<close>, lines 211-224, over the data rows, with the
  three locals \<open>chunk\<close>, \<open>current_chunk_size\<close>, \<open>chunk_index\<close>. An exception of the
  reader, of \<open>_write_chunk\<close> or of \<open>upload_csv_file\<close> leaves the loop.
\<close>

fun for_rows ::
  "env \<Rightarrow> row \<Rightarrow> string \<Rightarrow> string \<Rightarrow> row list \<Rightarrow> row list \<times> nat \<times> nat \<Rightarrow> CsvUploader \<Rightarrow> world
     \<Rightarrow> (exn + row list \<times> nat \<times> nat) \<times> CsvUploader \<times> world" where
  "for_rows E headers filename output_dir [] locals self w = (Inr locals, self, w)"
| "for_rows E headers filename output_dir (row # rest) (chunk0, current_chunk_size, chunk_index0)
      self w =
     (if field_too_large row then (Inl Csv_Error, self, w)
      else
       (let rsize = row_size row;
            chunk = chunk0 @ [row]
        in if current_chunk_size + rsize > MAX_CHUNK_SIZE self
           then (let chunk_index = chunk_index0 + 1
                 in case write_chunk E chunk chunk_index headers filename output_dir w of
                      (Inl e, w1) \<Rightarrow> (Inl e, self, w1)
                    | (Inr chunk_filename, w1) \<Rightarrow>
                        (case upload_csv_file E self w1 chunk_filename output_dir of
                           (Inl e, self2, w2) \<Rightarrow> (Inl e, self2, w2)
                         | (Inr u, self2, w2) \<Rightarrow>
                             for_rows E headers filename output_dir rest
                               ([] @ [row], 0 + rsize, chunk_index) self2 w2))
           else for_rows E headers filename output_dir rest
                  (chunk @ [row], current_chunk_size + rsize, chunk_index0) self w))"

text \<open>
  \<open>process_and_upload_chunks\<close>, lines 199-230. \<open>range(HEADER - 1)\<close> is empty when
  \<open>HEADER\<close> is below 2. The records of the source are taken when the file is opened: the
  chunk files go to another directory and do not change the source while it is read.
\<close>

definition process_and_upload_chunks ::
  "env \<Rightarrow> CsvUploader \<Rightarrow> world \<Rightarrow> (exn + unit) \<times> CsvUploader \<times> world" where
  "process_and_upload_chunks E self w =
     (case prepare_output_directory E self w of
        (Inl e, w0) \<Rightarrow> (Inl e, self, w0)
      | (Inr (output_dir, filename), w0) \<Rightarrow>
          (case Option.bind (CSV_PATH self) (files w0) of
             None \<Rightarrow> (Inl FileNotFoundError, self, w0)
           | Some records \<Rightarrow>
               (case skip_rows (nat (HEADER self - 1)) records of
                  Inl e \<Rightarrow> (Inl e, self, w0)
                | Inr after_skip \<Rightarrow>
                    (case reader_next after_skip of
                       Inl e \<Rightarrow> (Inl e, self, w0)
                     | Inr (headers, data) \<Rightarrow>
                         (case for_rows E headers filename output_dir data ([], 0, 0) self
                                 w0 of
                            (Inl e, self1, w1) \<Rightarrow> (Inl e, self1, w1)
                          | (Inr (chunk, current_chunk_size, chunk_index0), self1, w1) \<Rightarrow>
                              if chunk \<noteq> []
                              then (let chunk_index = chunk_index0 + 1
                                    in case write_chunk E chunk chunk_index headers filename
                                              output_dir w1 of
                                         (Inl e, w2) \<Rightarrow> (Inl e, self1, w2)
                                       | (Inr chunk_filename, w2) \<Rightarrow>
                                           upload_csv_file E self1 w2 chunk_filename
                                             output_dir)
                              else (Inr (), self1, w1))))))"

section \<open>Reading a trace\<close>

text \<open>The events that a call added: the trace after it, without the trace before it.\<close>

definition news :: "world \<Rightarrow> world \<Rightarrow> event list" where
  "news w w' = drop (length (trace w)) (trace w')"

text \<open>
  The token in force after a stretch of trace that began with the token \<open>cur\<close>: the one
  that the last answered authentication request issued, or \<open>cur\<close> when there was none.
\<close>

fun jwt_after :: "string \<Rightarrow> event list \<Rightarrow> string" where
  "jwt_after cur [] = cur"
| "jwt_after cur (Post_auth u n p reply # es) =
     jwt_after (case issued reply of Inr jwt \<Rightarrow> jwt | Inl e \<Rightarrow> cur) es"
| "jwt_after cur (e # es) = jwt_after cur es"

text \<open>
  Every upload request of the stretch carries, as its \<open>Authorization\<close> header, the token in
  force when it was sent.
\<close>

fun bearer_ok :: "string \<Rightarrow> event list \<Rightarrow> bool" where
  "bearer_ok cur [] = True"
| "bearer_ok cur (Post_auth u n p reply # es) =
     bearer_ok (case issued reply of Inr jwt \<Rightarrow> jwt | Inl e \<Rightarrow> cur) es"
| "bearer_ok cur (Post_upload u n c h r # es) = (h = ''Bearer '' @ cur \<and> bearer_ok cur es)"
| "bearer_ok cur (e # es) = bearer_ok cur es"

definition is_401 :: "response option \<Rightarrow> bool" where
  "is_401 reply = (case reply of None \<Rightarrow> False | Some r \<Rightarrow> status_code r = 401)"

definition is_200 :: "response option \<Rightarrow> bool" where
  "is_200 reply = (case reply of None \<Rightarrow> False | Some r \<Rightarrow> status_code r = 200)"

text \<open>The number of upload requests of a trace that were answered with status 401.\<close>

definition n_401 :: "event list \<Rightarrow> nat" where
  "n_401 es = length (filter (\<lambda>(n, h, r). is_401 r) (uploads es))"

text \<open>A call only ever appends to the trace.\<close>

definition grows :: "world \<Rightarrow> world \<Rightarrow> bool" where
  "grows w w' = (take (length (trace w)) (trace w') = trace w)"

text \<open>Two uploader objects that differ at most in the stored token.\<close>

definition same_config :: "CsvUploader \<Rightarrow> CsvUploader \<Rightarrow> bool" where
  "same_config a b = (a\<lparr>generated_jwt := []\<rparr> = b\<lparr>generated_jwt := []\<rparr>)"

text \<open>
  What holds across any stretch of upload attempts: the file system is untouched, no file
  operation is recorded, every request carries the token in force, the stored token is
  the one in force at the end, and there are as many authentication requests as there
  are uploads answered with 401.
\<close>

definition http_only :: "CsvUploader \<Rightarrow> world \<Rightarrow> CsvUploader \<Rightarrow> world \<Rightarrow> bool" where
  "http_only self w self' w' =
     (grows w w' \<and> files w' = files w \<and> dirs w' = dirs w
      \<and> writes (news w w') = [] \<and> moves (news w w') = []
      \<and> bearer_ok (generated_jwt self) (news w w')
      \<and> generated_jwt self' = jwt_after (generated_jwt self) (news w w')
      \<and> length (auths (news w w')) = n_401 (news w w')
      \<and> same_config self self')"

text \<open>Some chunk write or some move of the stretch was refused by the operating system.\<close>

definition refused :: "event list \<Rightarrow> bool" where
  "refused es = (list_ex (\<lambda>(p, c, ok). \<not> ok) (writes es) \<or> list_ex (\<lambda>(s, d, ok). \<not> ok) (moves es))"

section \<open>Example inputs\<close>

text \<open>
  A source file \<open>data/in.csv\<close> with the header row \<open>id,name\<close> and data rows; an uploader
  as \<open>__init__\<close> builds it, holding the token \<open>old\<close>; endpoints that answer as named.
\<close>

definition reply :: "nat \<Rightarrow> string \<Rightarrow> response option" where
  "reply c t = Some \<lparr>status_code = c, resp_text = t\<rparr>"

definition ex_header :: row where
  "ex_header = [[105, 100], [110, 97, 109, 101]]"

definition ex_row :: row where
  "ex_row = [[49], [97, 98]]"

definition ex_args :: args where
  "ex_args = \<lparr>arg_csvPath = Some ''data/in.csv'', arg_header = Some 1,
               arg_baseUrl = ''https://gw'', arg_username = Some ''u'',
               arg_password = Some ''p'', arg_connectionUuid = ''c1'',
               arg_profileUuid = ''p1'',
               arg_envQualysUsernameProperty = Some ''QUSER'',
               arg_envQualysPasswordProperty = Some ''QPASS''\<rparr>"

definition ex_self :: CsvUploader where
  "ex_self = \<lparr>CSV_PATH = Some ''data/in.csv'', HEADER = 1, MAX_CHUNK_SIZE = 9 * 1024 * 1024,
               BASE_URL = ''https://gw'', USERNAME = Some ''u'', PASSWORD = Some ''p'',
               CONNECTION_UUID = ''c1'', PROFILE_UUID = ''p1'', QAS_JWT_TOKEN_URI = ''/auth'',
               PROCESSED_DIR = ''uploaded'', envQualysUsernameProperty = None,
               envQualysPasswordProperty = None, generated_jwt = ''old''\<rparr>"

definition env_ok :: env where
  "env_ok = \<lparr>getenv = (\<lambda>v. None), now = ''20240101_000000'',
              auth_reply = (\<lambda>i. reply 200 ''new''), upload_reply = (\<lambda>i. reply 200 []),
              write_raises = (\<lambda>i. False), move_raises = (\<lambda>i. False)\<rparr>"

definition env_500 :: env where
  "env_500 = env_ok\<lparr>upload_reply := (\<lambda>i. reply 500 ''busy'')\<rparr>"

definition env_401_once :: env where
  "env_401_once = env_ok\<lparr>upload_reply := (\<lambda>i. if i = 0 then reply 401 [] else reply 200 [])\<rparr>"

definition env_auth_down :: env where
  "env_auth_down = env_ok\<lparr>upload_reply := (\<lambda>i. reply 401 []), auth_reply := (\<lambda>i. None)\<rparr>"

definition env_move_refused :: env where
  "env_move_refused = env_ok\<lparr>move_raises := (\<lambda>i. True)\<rparr>"

definition env_creds :: env where
  "env_creds = env_ok\<lparr>getenv := [''QUSER'' \<mapsto> ''u'', ''QPASS'' \<mapsto> ''p'']\<rparr>"

definition ex_world :: world where
  "ex_world = \<lparr>files = [''data/in.csv'' \<mapsto> [ex_header, ex_row]], dirs = {''data''}, trace = []\<rparr>"

definition ex_empty_world :: world where
  "ex_empty_world = \<lparr>files = [''data/in.csv'' \<mapsto> [ex_header]], dirs = {''data''}, trace = []\<rparr>"

definition ex_chunk_world :: world where
  "ex_chunk_world =
     \<lparr>files = [''data/in_20240101_000000/in_1.csv'' \<mapsto> [ex_header, ex_row]],
      dirs = {''data'', ''data/in_20240101_000000'', ''data/in_20240101_000000/uploaded''},
      trace = []\<rparr>"

text \<open>
  Two rows of 37 fields of 131,000 ASCII letters each (every field is below the limit of
  the reader; a row is 4,847,037 bytes with its separator), and sources whose data rows
  they are.
\<close>

definition wide_a :: row where
  "wide_a = replicate 37 (replicate 131000 97)"

definition wide_b :: row where
  "wide_b = replicate 37 (replicate 131000 98)"

definition ex_world_wide :: world where
  "ex_world_wide =
     \<lparr>files = [''data/in.csv'' \<mapsto> [ex_header, wide_a]], dirs = {''data''}, trace = []\<rparr>"

definition ex_world_wide2 :: world where
  "ex_world_wide2 =
     \<lparr>files = [''data/in.csv'' \<mapsto> [ex_header, wide_a, wide_b]], dirs = {''data''},
      trace = []\<rparr>"

section \<open>Traces and their projections\<close>

lemma auths_append [simp]: "auths (a @ b) = auths a @ auths b"
  by (induction a rule: auths.induct) auto
lemma uploads_append [simp]: "uploads (a @ b) = uploads a @ uploads b"
  by (induction a rule: uploads.induct) auto
lemma writes_append [simp]: "writes (a @ b) = writes a @ writes b"
  by (induction a rule: writes.induct) auto
lemma moves_append [simp]: "moves (a @ b) = moves a @ moves b"
  by (induction a rule: moves.induct) auto
lemma jwt_after_append [simp]: "jwt_after cur (a @ b) = jwt_after (jwt_after cur a) b"
  by (induction cur a rule: jwt_after.induct) auto
lemma bearer_ok_append [simp]:
  "bearer_ok cur (a @ b) = (bearer_ok cur a \<and> bearer_ok (jwt_after cur a) b)"
  by (induction cur a rule: bearer_ok.induct) auto
lemma n_401_append [simp]: "n_401 (a @ b) = n_401 a + n_401 b"
  by (simp add: n_401_def)

lemma trace_emit [simp]: "trace (emit es w) = trace w @ es"
  and files_emit [simp]: "files (emit es w) = files w"
  and dirs_emit [simp]: "dirs (emit es w) = dirs w"
  by (simp_all add: emit_def)

lemma news_same [simp]: "news w w = []"
  by (simp add: news_def)

lemma news_emit [simp]: "news w (emit es w) = es"
  by (simp add: news_def)

lemma growsI: "trace w' = trace w @ zs \<Longrightarrow> grows w w' \<and> news w w' = zs"
  by (simp add: grows_def news_def)

lemma growsD: "grows w w' \<Longrightarrow> trace w' = trace w @ news w w'"
  by (metis append_take_drop_id grows_def news_def)

lemma grows_refl [simp]: "grows w w"
  by (simp add: grows_def)

lemma grows_emit [simp]: "grows w w' \<Longrightarrow> grows w (emit es w')"
  using growsI [of "emit es w'" w "news w w' @ es"] growsD [of w w'] by simp

lemma news_emit_after [simp]: "grows w w' \<Longrightarrow> news w (emit es w') = news w w' @ es"
  using growsI [of "emit es w'" w "news w w' @ es"] growsD [of w w'] by simp

lemma grows_trans: "grows w w1 \<Longrightarrow> grows w1 w2 \<Longrightarrow> grows w w2"
  using growsI [of w2 w "news w w1 @ news w1 w2"] growsD [of w w1] growsD [of w1 w2] by simp

lemma news_trans: "grows w w1 \<Longrightarrow> grows w1 w2 \<Longrightarrow> news w w2 = news w w1 @ news w1 w2"
  using growsI [of w2 w "news w w1 @ news w1 w2"] growsD [of w w1] growsD [of w1 w2] by simp

lemma grows_trace_upd [simp]: "grows w (w'\<lparr>files := f\<rparr>) = grows w w'"
  "grows w (w'\<lparr>dirs := d\<rparr>) = grows w w'"
  "news w (w'\<lparr>files := f\<rparr>) = news w w'"
  "news w (w'\<lparr>dirs := d\<rparr>) = news w w'"
  by (simp_all add: grows_def news_def)

lemma emit_emit [simp]: "emit es (emit es' w) = emit (es' @ es) w"
  by (simp add: emit_def)

lemma generate_jwt_eq:
  "generate_jwt E self w =
     (issued (auth_reply E (length (auths (trace w)))),
      emit [Post_auth (BASE_URL self @ QAS_JWT_TOKEN_URI self) (USERNAME self) (PASSWORD self)
              (auth_reply E (length (auths (trace w)))),
            if isl (issued (auth_reply E (length (auths (trace w)))))
            then Log ERROR JWT_failed else Log INFO JWT_generated] w)"
  by (cases "issued (auth_reply E (length (auths (trace w))))")
     (simp_all add: generate_jwt_def Let_def)


lemma same_config_refl [simp]: "same_config a a"
  by (simp add: same_config_def)

lemma same_config_upd [simp]: "same_config a (b\<lparr>generated_jwt := j\<rparr>) = same_config a b"
  by (simp add: same_config_def)

lemma same_config_trans: "same_config a b \<Longrightarrow> same_config b c \<Longrightarrow> same_config a c"
  by (simp add: same_config_def)

lemma http_only_refl [simp]: "http_only self w self w"
  by (simp add: http_only_def n_401_def)

lemma http_only_trans:
  assumes "http_only s w s1 w1" and "http_only s1 w1 s2 w2"
  shows "http_only s w s2 w2"
proof -
  from assms have g: "grows w w1" "grows w1 w2"
    by (simp_all add: http_only_def)
  have n: "news w w2 = news w w1 @ news w1 w2"
    using g by (rule news_trans)
  have "same_config s s2"
    using assms same_config_trans [of s s1 s2] by (simp add: http_only_def)
  then show ?thesis
    using assms grows_trans [OF g] by (simp add: http_only_def n)
qed

lemma http_only_emit:
  assumes "http_only s w s1 w1"
    and "auths es = []" "uploads es = []" "writes es = []" "moves es = []"
    and "\<And>j. bearer_ok j es" "\<And>j. jwt_after j es = j"
  shows "http_only s w s1 (emit es w1)"
  using assms by (simp add: http_only_def n_401_def)

lemma body_no_file:
  "files w p = None \<Longrightarrow> upload_call_body E self w p n = (Inl FileNotFoundError, self, w)"
  by (simp add: upload_call_body_def)

lemma body_transport:
  "files w p = Some f \<Longrightarrow> upload_reply E (length (uploads (trace w))) = None \<Longrightarrow>
   upload_call_body E self w p n =
     (Inl RequestException, self,
      emit [Post_upload (upload_url self) n f (''Bearer '' @ generated_jwt self) None,
            Log ERROR (Error_uploading n)] w)"
  by (simp add: upload_call_body_def upload_url_def Let_def)

lemma body_200:
  "files w p = Some f \<Longrightarrow> upload_reply E (length (uploads (trace w))) = Some r \<Longrightarrow>
   status_code r = 200 \<Longrightarrow>
   upload_call_body E self w p n =
     (Inr r, self,
      emit [Post_upload (upload_url self) n f (''Bearer '' @ generated_jwt self) (Some r),
            Log INFO (Uploaded_successfully p)] w)"
  by (simp add: upload_call_body_def upload_url_def Let_def)

lemma body_other:
  "files w p = Some f \<Longrightarrow> upload_reply E (length (uploads (trace w))) = Some r \<Longrightarrow>
   status_code r \<noteq> 200 \<Longrightarrow> status_code r \<noteq> 401 \<Longrightarrow>
   upload_call_body E self w p n =
     (Inl (Exception_status (status_code r)), self,
      emit [Post_upload (upload_url self) n f (''Bearer '' @ generated_jwt self) (Some r),
            Log WARNING (Upload_failed p (resp_text r))] w)"
  by (simp add: upload_call_body_def upload_url_def Let_def)

lemma body_401:
  assumes "files w p = Some f" and "upload_reply E (length (uploads (trace w))) = Some r"
    and "status_code r = 401"
  shows "upload_call_body E self w p n =
     (case issued (auth_reply E (length (auths (trace w)))) of
        Inl e \<Rightarrow> Inl e | Inr jwt \<Rightarrow> Inl (Exception_regenerating 401),
      case issued (auth_reply E (length (auths (trace w)))) of
        Inl e \<Rightarrow> self | Inr jwt \<Rightarrow> self\<lparr>generated_jwt := jwt\<rparr>,
      emit [Post_upload (upload_url self) n f (''Bearer '' @ generated_jwt self) (Some r),
            Post_auth (BASE_URL self @ QAS_JWT_TOKEN_URI self) (USERNAME self) (PASSWORD self)
              (auth_reply E (length (auths (trace w)))),
            if isl (issued (auth_reply E (length (auths (trace w)))))
            then Log ERROR JWT_failed else Log INFO JWT_generated] w)"
  using assms
  by (cases "issued (auth_reply E (length (auths (trace w))))")
     (simp_all add: upload_call_body_def upload_url_def Let_def generate_jwt_eq)

lemma body_cases:
  obtains (no_file) "files w p = None"
  | (transport) f where "files w p = Some f" "upload_reply E (length (uploads (trace w))) = None"
  | (ok) f r where "files w p = Some f" "upload_reply E (length (uploads (trace w))) = Some r"
      "status_code r = 200"
  | (expired) f r where "files w p = Some f" "upload_reply E (length (uploads (trace w))) = Some r"
      "status_code r = 401"
  | (other) f r where "files w p = Some f" "upload_reply E (length (uploads (trace w))) = Some r"
      "status_code r \<noteq> 200" "status_code r \<noteq> 401"
proof (cases "files w p")
  case None
  then show ?thesis by (rule no_file)
next
  case (Some f)
  show ?thesis
  proof (cases "upload_reply E (length (uploads (trace w)))")
    case None
    with Some show ?thesis by (rule transport)
  next
    case r: (Some r)
    show ?thesis
      using Some r ok [of f r] expired [of f r] other [of f r] by blast
  qed
qed

lemma body_http_only:
  assumes "upload_call_body E self w p n = (res, self', w')"
  shows "http_only self w self' w'"
proof (cases rule: body_cases [where w = w and p = p and E = E])
  case no_file
  then show ?thesis using assms by (simp add: body_no_file)
next
  case (transport f)
  then show ?thesis using assms
    by (auto simp: body_transport http_only_def n_401_def is_401_def)
next
  case (ok f r)
  then show ?thesis using assms
    by (auto simp: body_200 http_only_def n_401_def is_401_def)
next
  case (expired f r)
  then show ?thesis using assms
    by (cases "issued (auth_reply E (length (auths (trace w))))")
       (auto simp: body_401 http_only_def n_401_def is_401_def)
next
  case (other f r)
  then show ?thesis using assms
    by (auto simp: body_other http_only_def n_401_def is_401_def)
qed


lemma body_uploads_le:
  assumes "upload_call_body E self w p n = (res, self', w')"
  shows "length (uploads (news w w')) \<le> 1"
proof (cases rule: body_cases [where w = w and p = p and E = E])
  case no_file
  then show ?thesis using assms by (simp add: body_no_file)
next
  case (transport f)
  then show ?thesis using assms by (auto simp: body_transport)
next
  case (ok f r)
  then show ?thesis using assms by (auto simp: body_200)
next
  case (expired f r)
  then show ?thesis using assms by (auto simp: body_401)
next
  case (other f r)
  then show ?thesis using assms by (auto simp: body_other)
qed

text \<open>An attempt that found the file sent exactly one request, and returned only on 200.\<close>

lemma body_sent:
  assumes "upload_call_body E self w p n = (res, self', w')" and "files w p = Some f"
  shows "uploads (news w w') =
           [(n, ''Bearer '' @ generated_jwt self, upload_reply E (length (uploads (trace w))))]
         \<and> (case res of Inr r \<Rightarrow> upload_reply E (length (uploads (trace w))) = Some r
                                  \<and> status_code r = 200
             | Inl e \<Rightarrow> \<not> is_200 (upload_reply E (length (uploads (trace w)))))"
proof (cases rule: body_cases [where w = w and p = p and E = E])
  case no_file
  then show ?thesis using assms by simp
next
  case (transport f)
  then show ?thesis using assms by (auto simp: body_transport is_200_def)
next
  case (ok f r)
  then show ?thesis using assms by (auto simp: body_200 is_200_def)
next
  case (expired f r)
  then show ?thesis using assms
    by (cases "issued (auth_reply E (length (auths (trace w))))")
       (auto simp: body_401 is_200_def)
next
  case (other f r)
  then show ?thesis using assms by (auto simp: body_other is_200_def)
qed

lemma from_http_only:
  "upload_call_from k E self w p n = (res, self', w') \<Longrightarrow> http_only self w self' w'"
proof (induction k E self w p n arbitrary: res self' w' rule: upload_call_from.induct)
  case (1 k E self w p n)
  obtain r1 s1 w1 where b: "upload_call_body E self w p n = (r1, s1, w1)"
    by (cases "upload_call_body E self w p n") auto
  have h1: "http_only self w s1 w1"
    using b by (rule body_http_only)
  show ?case
  proof (cases r1)
    case (Inr r)
    then show ?thesis
      using "1.prems" b h1 by (simp add: upload_call_from.simps)
  next
    case (Inl e)
    show ?thesis
    proof (cases "k \<ge> 3")
      case True
      then show ?thesis
        using "1.prems" b h1 Inl by (simp add: upload_call_from.simps)
    next
      case False
      let ?w2 = "emit [Log INFO (Before_sleep k), Sleep (10 * 2 ^ (k - 1))] w1"
      have e: "upload_call_from (k + 1) E s1 ?w2 p n = (res, self', w')"
        using "1.prems" b Inl False by (simp add: upload_call_from.simps)
      have h2: "http_only s1 ?w2 self' w'"
        using "1.IH" [OF b [symmetric] Inl refl False e] .
      have "http_only self w s1 ?w2"
        using h1 by (rule http_only_emit) simp_all
      then show ?thesis
        using h2 by (rule http_only_trans)
    qed
  qed
qed


lemma http_only_news:
  assumes "http_only s w s1 w1" and "http_only s1 w2 s' w'" and "w2 = emit es w1"
    and "uploads es = []"
  shows "uploads (news w w') = uploads (news w w1) @ uploads (news w2 w')"
    and "files w2 = files w"
proof -
  have g: "grows w w1" "grows w1 w2" "grows w2 w'"
    using assms by (simp_all add: http_only_def)
  have "news w w' = news w w2 @ news w2 w'"
    using grows_trans [OF g(1,2)] g(3) by (rule news_trans)
  moreover have "news w w2 = news w w1 @ es"
    using g(1) assms(3) by simp
  ultimately show "uploads (news w w') = uploads (news w w1) @ uploads (news w2 w')"
    using assms(4) by simp
  show "files w2 = files w"
    using assms by (simp add: http_only_def)
qed

text \<open>
  The retried call sends at most \<open>4 - k\<close> requests when it starts at attempt \<open>k\<close>; the
  only exception that leaves it is \<open>RetryError\<close>; it returns the response of its last
  request, whose status is 200.
\<close>

lemma from_result:
  "upload_call_from k E self w p n = (res, self', w') \<Longrightarrow>
   length (uploads (news w w')) \<le> Suc (3 - k)
   \<and> (case res of
         Inl e \<Rightarrow> e = RetryError
       | Inr r \<Rightarrow> status_code r = 200 \<and> files w p \<noteq> None \<and> uploads (news w w') \<noteq> []
                  \<and> snd (snd (last (uploads (news w w')))) = Some r)"
proof (induction k E self w p n arbitrary: res self' w' rule: upload_call_from.induct)
  case (1 k E self w p n)
  obtain r1 s1 w1 where b: "upload_call_body E self w p n = (r1, s1, w1)"
    by (cases "upload_call_body E self w p n") auto
  have le1: "length (uploads (news w w1)) \<le> 1"
    using b by (rule body_uploads_le)
  show ?case
  proof (cases r1)
    case (Inr r)
    have eq: "res = Inr r" "self' = s1" "w' = w1"
      using "1.prems" b Inr by (simp_all add: upload_call_from.simps)
    have f: "files w p \<noteq> None"
      using b Inr by (cases "files w p") (simp_all add: body_no_file)
    then obtain f0 where f0: "files w p = Some f0" by blast
    show ?thesis
      using body_sent [OF b f0] Inr eq f by simp
  next
    case (Inl e)
    show ?thesis
    proof (cases "k \<ge> 3")
      case True
      then show ?thesis
        using "1.prems" b le1 Inl by (auto simp: upload_call_from.simps)
    next
      case False
      let ?w2 = "emit [Log INFO (Before_sleep k), Sleep (10 * 2 ^ (k - 1))] w1"
      have e: "upload_call_from (k + 1) E s1 ?w2 p n = (res, self', w')"
        using "1.prems" b Inl False by (simp add: upload_call_from.simps)
      note ih = "1.IH" [OF b [symmetric] Inl refl False e]
      have n: "uploads (news w w') = uploads (news w w1) @ uploads (news ?w2 w')"
        and fs: "files ?w2 = files w"
        using http_only_news [OF body_http_only [OF b] from_http_only [OF e] refl] by simp_all
      have "length (uploads (news ?w2 w')) \<le> Suc (3 - (k + 1))"
        using ih by blast
      then have "length (uploads (news w w')) \<le> Suc (3 - k)"
        using le1 False unfolding n length_append by linarith
      moreover have "case res of
         Inl e \<Rightarrow> e = RetryError
       | Inr r \<Rightarrow> status_code r = 200 \<and> files w p \<noteq> None \<and> uploads (news w w') \<noteq> []
                  \<and> snd (snd (last (uploads (news w w')))) = Some r"
        using ih body_http_only [OF b] by (cases res) (simp_all add: n http_only_def)
      ultimately show ?thesis by simp
    qed
  qed
qed

text \<open>When no request is answered with 200, all attempts are used and \<open>RetryError\<close> is raised.\<close>

lemma from_all_fail:
  "upload_call_from k E self w p n = (res, self', w') \<Longrightarrow> files w p = Some f \<Longrightarrow> k \<le> 3 \<Longrightarrow>
   (\<And>i. i \<le> 3 - k \<Longrightarrow> \<not> is_200 (upload_reply E (length (uploads (trace w)) + i))) \<Longrightarrow>
   res = Inl RetryError \<and> length (uploads (news w w')) = Suc (3 - k)"
proof (induction k E self w p n arbitrary: res self' w' rule: upload_call_from.induct)
  case (1 k E self w p n)
  obtain r1 s1 w1 where b: "upload_call_body E self w p n = (r1, s1, w1)"
    by (cases "upload_call_body E self w p n") auto
  note sent = body_sent [OF b "1.prems"(2)]
  have no200: "\<not> is_200 (upload_reply E (length (uploads (trace w))))"
    using "1.prems"(4) [of 0] by simp
  obtain e where Inl: "r1 = Inl e"
    using sent no200 by (cases r1) (auto simp: is_200_def)
  have h1: "http_only self w s1 w1"
    using b by (rule body_http_only)
  show ?case
  proof (cases "k \<ge> 3")
    case True
    then show ?thesis
      using "1.prems" b sent Inl by (auto simp: upload_call_from.simps)
  next
    case False
    let ?w2 = "emit [Log INFO (Before_sleep k), Sleep (10 * 2 ^ (k - 1))] w1"
    have e: "upload_call_from (k + 1) E s1 ?w2 p n = (res, self', w')"
      using "1.prems" b Inl False by (simp add: upload_call_from.simps)
    have n: "uploads (news w w') = uploads (news w w1) @ uploads (news ?w2 w')"
      and fs: "files ?w2 = files w"
      using http_only_news [OF h1 from_http_only [OF e] refl] by simp_all
    have len: "length (uploads (trace w1)) = Suc (length (uploads (trace w)))"
      using growsD [of w w1] h1 sent by (simp add: http_only_def)
    have "res = Inl RetryError \<and> length (uploads (news ?w2 w')) = Suc (3 - (k + 1))"
    proof (rule "1.IH" [OF b [symmetric] Inl refl False e])
      show "files ?w2 p = Some f" using fs "1.prems"(2) by simp
      show "k + 1 \<le> 3" using False by simp
      fix i assume "i \<le> 3 - (k + 1)"
      then show "\<not> is_200 (upload_reply E (length (uploads (trace ?w2)) + i))"
        using "1.prems"(4) [of "Suc i"] False by (simp add: len)
    qed
    then show ?thesis
      using sent False by (simp add: n)
  qed
qed


subsection \<open>File operations\<close>

lemma move_raised:
  "files w src = Some c \<Longrightarrow> move_raises E (length (moves (trace w))) \<Longrightarrow>
   shutil_move E src dst w = (Inl OSError, emit [Move src dst False] w)"
  by (simp add: shutil_move_def)

lemma move_done:
  "files w src = Some c \<Longrightarrow> \<not> move_raises E (length (moves (trace w))) \<Longrightarrow>
   shutil_move E src dst w =
     (Inr (), emit [Move src dst True] (w\<lparr>files := ((files w)(src := None))(dst \<mapsto> c)\<rparr>))"
  by (simp add: shutil_move_def)

lemma write_raised:
  "write_raises E (length (writes (trace w))) \<Longrightarrow>
   write_chunk E chunk idx h fn od w =
     (Inl OSError,
      emit [Write_file (os_path_join od (fn @ ''_'' @ string_of_nat idx @ ''.csv'')) [] False] w)"
  by (simp add: write_chunk_def Let_def)

lemma write_done:
  "\<not> write_raises E (length (writes (trace w))) \<Longrightarrow>
   write_chunk E chunk idx h fn od w =
     (Inr (fn @ ''_'' @ string_of_nat idx @ ''.csv''),
      emit [Write_file (os_path_join od (fn @ ''_'' @ string_of_nat idx @ ''.csv'')) (h # chunk) True,
            Log INFO (Written_chunk (fn @ ''_'' @ string_of_nat idx @ ''.csv'') (length chunk)
                        (os_path_join od (fn @ ''_'' @ string_of_nat idx @ ''.csv'')))]
        (w\<lparr>files := (files w)(os_path_join od (fn @ ''_'' @ string_of_nat idx @ ''.csv'')
                                   \<mapsto> h # chunk)\<rparr>))"
  by (simp add: write_chunk_def Let_def)

text \<open>The three ways \<open>upload_csv_file\<close> ends.\<close>

lemma upload_csv_file_cases:
  assumes "upload_csv_file E self w fn od = (res, self', w')"
  obtains (exhausted) w1 where
      "upload_call E self w (os_path_join od fn) fn = (Inl RetryError, self', w1)"
      "res = Inr ()"
      "w' = emit [Log ERROR (Failed_to_upload (os_path_join od fn))] w1"
  | (move_failed) r w1 where
      "upload_call E self w (os_path_join od fn) fn = (Inr r, self', w1)"
      "move_raises E (length (moves (trace w1)))"
      "res = Inl OSError"
      "w' = emit [Move (os_path_join od fn)
                    (os_path_join (os_path_join od (PROCESSED_DIR self)) fn) False] w1"
  | (moved) r w1 c where
      "upload_call E self w (os_path_join od fn) fn = (Inr r, self', w1)"
      "\<not> move_raises E (length (moves (trace w1)))"
      "files w (os_path_join od fn) = Some c"
      "res = Inr ()"
      "w' = emit [Move (os_path_join od fn)
                    (os_path_join (os_path_join od (PROCESSED_DIR self)) fn) True,
                  Log INFO (Moved fn (os_path_join (os_path_join od (PROCESSED_DIR self)) fn))]
             (w1\<lparr>files := ((files w1)(os_path_join od fn := None))
                              (os_path_join (os_path_join od (PROCESSED_DIR self)) fn \<mapsto> c)\<rparr>)"
proof -
  obtain r1 s1 w1 where u: "upload_call E self w (os_path_join od fn) fn = (r1, s1, w1)"
    by (cases "upload_call E self w (os_path_join od fn) fn") auto
  note fr = from_result [OF u [unfolded upload_call_def]]
  have ho: "http_only self w s1 w1"
    using u unfolding upload_call_def by (rule from_http_only)
  show thesis
  proof (cases r1)
    case (Inl e)
    then have "e = RetryError" using fr by simp
    then show thesis
      using assms u Inl exhausted by (simp add: upload_csv_file_def Let_def)
  next
    case (Inr r)
    then obtain c where c: "files w (os_path_join od fn) = Some c"
      using fr by auto
    then have c1: "files w1 (os_path_join od fn) = Some c"
      using ho by (simp add: http_only_def)
    show thesis
    proof (cases "move_raises E (length (moves (trace w1)))")
      case True
      then show thesis
        using assms u Inr move_failed [of r w1] move_raised [OF c1 True]
        by (simp add: upload_csv_file_def Let_def)
    next
      case False
      then show thesis
        using assms u Inr c moved [of r w1 c] move_done [OF c1 False]
        by (simp add: upload_csv_file_def Let_def)
    qed
  qed
qed


subsection \<open>The loop and the run, for any relation between the state before and after\<close>

text \<open>
  \<open>R ok\<close> relates the state before a stretch of the run to the state after it; \<open>ok\<close>
  tells whether the stretch ended without an exception. A relation that holds across
  every chunk write and every \<open>upload_csv_file\<close>, and is reflexive and transitive,
  holds across the loop.
\<close>

lemma for_rows_rel:
  fixes R :: "bool \<Rightarrow> CsvUploader \<Rightarrow> world \<Rightarrow> CsvUploader \<Rightarrow> world \<Rightarrow> bool"
  assumes refl: "\<And>s w. R True s w s w"
    and trans: "\<And>ok a wa b wb c wc. R True a wa b wb \<Longrightarrow> R ok b wb c wc \<Longrightarrow> R ok a wa c wc"
    and wr: "\<And>s wa chunk idx r wb.
               write_chunk E chunk idx h fn od wa = (r, wb) \<Longrightarrow> R (\<not> isl r) s wa s wb"
    and up: "\<And>s wa name r s1 wb.
               upload_csv_file E s wa name od = (r, s1, wb) \<Longrightarrow> R (\<not> isl r) s wa s1 wb"
  shows "for_rows E h fn od rows locals self w = (res, self', w') \<Longrightarrow>
         R (\<not> isl res) self w self' w' \<or> (res = Inl Csv_Error \<and> R True self w self' w')"
proof (induction rows arbitrary: locals self w)
  case Nil
  then show ?case using refl by auto
next
  case (Cons row rest)
  obtain chunk0 sz idx where l: "locals = (chunk0, sz, idx)"
    by (cases locals) auto
  have step: "R (\<not> isl res) self w self' w' \<or> (res = Inl Csv_Error \<and> R True self w self' w')"
    if "R True self w s2 w2"
      and "R (\<not> isl res) s2 w2 self' w' \<or> (res = Inl Csv_Error \<and> R True s2 w2 self' w')"
    for s2 w2
    using that trans [of self w s2 w2 "\<not> isl res" self' w'] trans [of self w s2 w2 True self' w']
    by blast
  show ?case
  proof (cases "field_too_large row")
    case True
    then have "res = Inl Csv_Error" "self' = self" "w' = w"
      using Cons.prems l by simp_all
    then show ?thesis using refl by simp
  next
    case small: False
    show ?thesis
    proof (cases "sz + row_size row > MAX_CHUNK_SIZE self")
      case False
      then have "for_rows E h fn od rest (chunk0 @ [row] @ [row], sz + row_size row, idx) self w
                 = (res, self', w')"
        using Cons.prems l small by (simp add: Let_def)
      then show ?thesis by (rule Cons.IH)
    next
      case True
      obtain r1 w1 where w1: "write_chunk E (chunk0 @ [row]) (idx + 1) h fn od w = (r1, w1)"
        by (cases "write_chunk E (chunk0 @ [row]) (idx + 1) h fn od w") auto
      note R1 = wr [OF w1, of self]
      show ?thesis
      proof (cases r1)
        case (Inl e)
        then show ?thesis
          using Cons.prems l small True w1 R1 by (auto simp: Let_def)
      next
        case name: (Inr name)
        obtain r2 s2 w2 where u: "upload_csv_file E self w1 name od = (r2, s2, w2)"
          by (cases "upload_csv_file E self w1 name od") auto
        note R2 = up [OF u]
        show ?thesis
        proof (cases r2)
          case (Inl e)
          then have "res = Inl e" "self' = s2" "w' = w2"
            using Cons.prems l small True w1 name u by (simp_all add: Let_def)
          then show ?thesis
            using trans [of self w self w1 False s2 w2] R1 R2 name Inl by simp
        next
          case (Inr a)
          then have "for_rows E h fn od rest ([row], row_size row, idx + 1) s2 w2
                     = (res, self', w')"
            using Cons.prems l small True w1 name u by (simp add: Let_def)
          then have "R (\<not> isl res) s2 w2 self' w'
                     \<or> (res = Inl Csv_Error \<and> R True s2 w2 self' w')"
            by (rule Cons.IH)
          moreover have "R True self w s2 w2"
            using trans [of self w self w1 True s2 w2] R1 R2 name Inr by simp
          ultimately show ?thesis by (rule step [rotated])
        qed
      qed
    qed
  qed
qed

lemma prepare_eq:
  "CSV_PATH self = Some p \<Longrightarrow>
   prepare_output_directory E self w =
     (Inr (os_path_join (dirname p) (splitext_root (basename p) @ ''_'' @ now E),
           splitext_root (basename p)),
      emit [Makedirs (os_path_join (os_path_join (dirname p)
                        (splitext_root (basename p) @ ''_'' @ now E)) (PROCESSED_DIR self))]
        (w\<lparr>dirs := insert (os_path_join (dirname p) (splitext_root (basename p) @ ''_'' @ now E))
                    (insert (os_path_join (os_path_join (dirname p)
                        (splitext_root (basename p) @ ''_'' @ now E)) (PROCESSED_DIR self))
                       (dirs w))\<rparr>))"
  by (simp add: prepare_output_directory_def Let_def)

text \<open>What the reader hands over, and the only exceptions it raises.\<close>

lemma reader_next_Inr: "reader_next rs = Inr (h, data) \<Longrightarrow> rs = h # data"
  by (cases rs) (auto split: if_splits)

lemma reader_next_Inl: "reader_next rs = Inl e \<Longrightarrow> e = StopIteration \<or> e = Csv_Error"
  by (cases rs) (auto split: if_splits)

lemma skip_rows_Inr: "skip_rows n rs = Inr rest \<Longrightarrow> rest = drop n rs"
proof (induction n arbitrary: rs)
  case 0
  then show ?case by simp
next
  case (Suc n)
  show ?case
  proof (cases rs)
    case Nil
    then show ?thesis using Suc.prems by simp
  next
    case (Cons r rs')
    then show ?thesis
      using Suc.prems Suc.IH [of rs'] by (cases "field_too_large r") simp_all
  qed
qed

lemma skip_rows_Inl: "skip_rows n rs = Inl e \<Longrightarrow> e = StopIteration \<or> e = Csv_Error"
proof (induction n arbitrary: rs)
  case 0
  then show ?case by simp
next
  case (Suc n)
  show ?case
  proof (cases rs)
    case Nil
    then show ?thesis using Suc.prems by simp
  next
    case (Cons r rs')
    then show ?thesis
      using Suc.prems Suc.IH [of rs'] by (cases "field_too_large r") simp_all
  qed
qed

text \<open>
  The same across the whole of \<open>process_and_upload_chunks\<close>: the relation holds from the
  start to the end, or the source could not be read (no path, no file, no header row,
  a record that the reader refuses) and the relation holds up to that point.
\<close>

lemma process_rel:
  fixes R :: "bool \<Rightarrow> CsvUploader \<Rightarrow> world \<Rightarrow> CsvUploader \<Rightarrow> world \<Rightarrow> bool"
  assumes run: "process_and_upload_chunks E self w = (res, self', w')"
    and refl: "\<And>s w. R True s w s w"
    and trans: "\<And>ok a wa b wb c wc. R True a wa b wb \<Longrightarrow> R ok b wb c wc \<Longrightarrow> R ok a wa c wc"
    and prep: "\<And>r w0. prepare_output_directory E self w = (r, w0) \<Longrightarrow> R True self w self w0"
    and wr: "\<And>s wa chunk idx r wb od fn p records h data.
               CSV_PATH self = Some p \<Longrightarrow> files w p = Some records \<Longrightarrow>
               drop (nat (HEADER self - 1)) records = h # data \<Longrightarrow>
               write_chunk E chunk idx h fn od wa = (r, wb) \<Longrightarrow> R (\<not> isl r) s wa s wb"
    and up: "\<And>s wa name od r s1 wb.
               upload_csv_file E s wa name od = (r, s1, wb) \<Longrightarrow> R (\<not> isl r) s wa s1 wb"
  shows "R (\<not> isl res) self w self' w'
         \<or> (res \<in> {Inl TypeError, Inl FileNotFoundError, Inl StopIteration, Inl Csv_Error}
            \<and> R True self w self' w')"
proof (cases "CSV_PATH self")
  case None
  then show ?thesis
    using run refl by (auto simp: process_and_upload_chunks_def prepare_output_directory_def)
next
  case (Some p)
  obtain od fn w0 where p0: "prepare_output_directory E self w = (Inr (od, fn), w0)"
    and f0: "files w0 = files w"
    using prepare_eq [OF Some, of E w] by simp
  note R0 = prep [OF p0]
  show ?thesis
  proof (cases "files w p")
    case None
    then show ?thesis
      using run Some p0 f0 R0 by (auto simp: process_and_upload_chunks_def)
  next
    case records: (Some records)
    show ?thesis
    proof (cases "skip_rows (nat (HEADER self - 1)) records")
      case (Inl e)
      then have "res = Inl e" "self' = self" "w' = w0"
        using run Some p0 f0 records by (simp_all add: process_and_upload_chunks_def)
      then show ?thesis
        using R0 skip_rows_Inl [OF Inl] by auto
    next
      case skipped: (Inr after_skip)
      show ?thesis
      proof (cases "reader_next after_skip")
        case (Inl e)
        then have "res = Inl e" "self' = self" "w' = w0"
          using run Some p0 f0 records skipped by (simp_all add: process_and_upload_chunks_def)
        then show ?thesis
          using R0 reader_next_Inl [OF Inl] by auto
      next
        case (Inr hd_data)
        obtain h data where hd: "hd_data = (h, data)" by (cases hd_data) auto
        have "drop (nat (HEADER self - 1)) records = h # data"
          using skip_rows_Inr [OF skipped] reader_next_Inr [of after_skip h data] Inr hd
          by simp
        note wr' = wr [OF Some records this]
        obtain lres s1 w1 where l: "for_rows E h fn od data ([], 0, 0) self w0 = (lres, s1, w1)"
          by (cases "for_rows E h fn od data ([], 0, 0) self w0") auto
        have Rl: "R (\<not> isl lres) self w0 s1 w1 \<or> (lres = Inl Csv_Error \<and> R True self w0 s1 w1)"
          using refl trans wr' up l by (rule for_rows_rel)
        have "R (\<not> isl res) self w0 self' w'
              \<or> (res = Inl Csv_Error \<and> R True self w0 self' w')"
        proof (cases lres)
          case (Inl e)
          then have "res = Inl e" "self' = s1" "w' = w1"
            using run Some p0 f0 records skipped Inr hd l
            by (simp_all add: process_and_upload_chunks_def)
          then show ?thesis
            using Rl Inl by auto
        next
          case locs: (Inr locals)
          obtain chunk sz idx where lo: "locals = (chunk, sz, idx)"
            by (cases locals) auto
          have Rl': "R True self w0 s1 w1" using Rl locs by auto
          show ?thesis
          proof (cases "chunk = []")
            case True
            then have "res = Inr ()" "self' = s1" "w' = w1"
              using run Some p0 f0 records skipped Inr hd l locs lo
              by (simp_all add: process_and_upload_chunks_def)
            then show ?thesis using Rl' by simp
          next
            case False
            obtain r2 w2 where w2: "write_chunk E chunk (idx + 1) h fn od w1 = (r2, w2)"
              by (cases "write_chunk E chunk (idx + 1) h fn od w1") auto
            note R2 = wr' [OF w2, of s1]
            show ?thesis
            proof (cases r2)
              case (Inl e)
              then have "res = Inl e" "self' = s1" "w' = w2"
                using run Some p0 f0 records skipped Inr hd l locs lo False w2
                by (simp_all add: process_and_upload_chunks_def Let_def)
              then show ?thesis
                using trans [OF Rl', of False s1 w2] R2 Inl by simp
            next
              case name: (Inr name)
              then have u: "upload_csv_file E s1 w2 name od = (res, self', w')"
                using run Some p0 f0 records skipped Inr hd l locs lo False w2
                by (simp add: process_and_upload_chunks_def Let_def)
              have "R True self w0 s1 w2"
                using trans [OF Rl', of True s1 w2] R2 name by simp
              then have "R (\<not> isl res) self w0 self' w'"
                using up [OF u] by (rule trans)
              then show ?thesis ..
            qed
          qed
        qed
        then show ?thesis
          using trans [OF R0, of "\<not> isl res" self' w'] trans [OF R0, of True self' w']
          by auto
      qed
    qed
  qed
qed

subsection \<open>What each file-level operation adds to the trace\<close>

lemma grows_files_upd [simp]:
  "grows w w1 \<Longrightarrow> grows w (emit es (w1\<lparr>files := f\<rparr>))"
  "grows w w1 \<Longrightarrow> news w (emit es (w1\<lparr>files := f\<rparr>)) = news w w1 @ es"
  using growsI [of "emit es (w1\<lparr>files := f\<rparr>)" w "news w w1 @ es"] growsD [of w w1]
  by (simp_all add: emit_def)

lemma grows_dirs_upd [simp]:
  "grows w w1 \<Longrightarrow> grows w (emit es (w1\<lparr>dirs := d\<rparr>))"
  "grows w w1 \<Longrightarrow> news w (emit es (w1\<lparr>dirs := d\<rparr>)) = news w w1 @ es"
  using growsI [of "emit es (w1\<lparr>dirs := d\<rparr>)" w "news w w1 @ es"] growsD [of w w1]
  by (simp_all add: emit_def)

text \<open>What a chunk write adds to the trace.\<close>

lemma write_chunk_news:
  assumes "write_chunk E chunk idx h fn od w = (r, w')"
  shows "grows w w' \<and> moves (news w w') = [] \<and> auths (news w w') = []
         \<and> uploads (news w w') = [] \<and> bearer_ok j (news w w') \<and> jwt_after j (news w w') = j
         \<and> writes (news w w') =
             [(os_path_join od (fn @ ''_'' @ string_of_nat idx @ ''.csv''),
               if isl r then [] else h # chunk, \<not> isl r)]"
proof (cases "write_raises E (length (writes (trace w)))")
  case True
  have "r = Inl OSError" and "w' = emit [Write_file (os_path_join od (fn @ ''_'' @ string_of_nat idx @ ''.csv'')) [] False] w"
    using assms write_raised [OF True, of chunk idx h fn od] by simp_all
  then show ?thesis by simp
next
  case False
  have "r = Inr (fn @ ''_'' @ string_of_nat idx @ ''.csv'')"
    and "w' = emit [Write_file (os_path_join od (fn @ ''_'' @ string_of_nat idx @ ''.csv'')) (h # chunk) True,
            Log INFO (Written_chunk (fn @ ''_'' @ string_of_nat idx @ ''.csv'') (length chunk)
                        (os_path_join od (fn @ ''_'' @ string_of_nat idx @ ''.csv'')))]
        (w\<lparr>files := (files w)(os_path_join od (fn @ ''_'' @ string_of_nat idx @ ''.csv'')
                                   \<mapsto> h # chunk)\<rparr>)"
    using assms write_done [OF False, of chunk idx h fn od] by simp_all
  then show ?thesis by simp
qed


lemma prepare_news:
  assumes "prepare_output_directory E self w = (r, w')"
  shows "grows w w' \<and> writes (news w w') = [] \<and> moves (news w w') = []
         \<and> auths (news w w') = [] \<and> uploads (news w w') = []
         \<and> bearer_ok j (news w w') \<and> jwt_after j (news w w') = j \<and> files w' = files w"
proof (cases "CSV_PATH self")
  case None
  then have "w' = w"
    using assms by (simp add: prepare_output_directory_def)
  then show ?thesis by simp
next
  case (Some p)
  show ?thesis
    using assms unfolding prepare_eq [OF Some] by auto
qed

text \<open>What \<open>upload_csv_file\<close> adds: the events of the retried upload, then at most a move.\<close>

lemma upload_csv_file_news:
  assumes "upload_csv_file E self w fn od = (res, self', w')"
  shows "\<exists>w1 tl. http_only self w self' w1 \<and> grows w w' \<and> news w w' = news w w1 @ tl
           \<and> auths tl = [] \<and> uploads tl = [] \<and> writes tl = []
           \<and> moves tl = (if isl res
                          then [(os_path_join od fn,
                                 os_path_join (os_path_join od (PROCESSED_DIR self)) fn, False)]
                          else moves tl)
           \<and> list_all (\<lambda>(s, d, ok). ok = (\<not> isl res)) (moves tl)
           \<and> (\<forall>j. bearer_ok j tl \<and> jwt_after j tl = j)"
  using assms
proof (cases rule: upload_csv_file_cases)
  case (exhausted w1)
  have h: "http_only self w self' w1"
    using exhausted(1) unfolding upload_call_def by (rule from_http_only)
  then have g: "grows w w1" by (simp add: http_only_def)
  have "news w w' = news w w1 @ [Log ERROR (Failed_to_upload (os_path_join od fn))]"
    and "grows w w'"
    using g exhausted(3) by simp_all
  then show ?thesis
    using h exhausted(2) by (intro exI [of _ w1] exI [of _ "[Log ERROR (Failed_to_upload (os_path_join od fn))]"]) simp
next
  case (move_failed r w1)
  have h: "http_only self w self' w1"
    using move_failed(1) unfolding upload_call_def by (rule from_http_only)
  then have g: "grows w w1" by (simp add: http_only_def)
  let ?tl = "[Move (os_path_join od fn)
                    (os_path_join (os_path_join od (PROCESSED_DIR self)) fn) False]"
  have "news w w' = news w w1 @ ?tl" and "grows w w'"
    using g move_failed(4) by simp_all
  then show ?thesis
    using h move_failed(3) by (intro exI [of _ w1] exI [of _ ?tl]) simp
next
  case (moved r w1 c)
  have h: "http_only self w self' w1"
    using moved(1) unfolding upload_call_def by (rule from_http_only)
  then have g: "grows w w1" by (simp add: http_only_def)
  let ?tl = "[Move (os_path_join od fn)
                    (os_path_join (os_path_join od (PROCESSED_DIR self)) fn) True,
                  Log INFO (Moved fn (os_path_join (os_path_join od (PROCESSED_DIR self)) fn))]"
  have "news w w' = news w w1 @ ?tl" and "grows w w'"
    using g moved(5) by simp_all
  then show ?thesis
    using h moved(4) by (intro exI [of _ w1] exI [of _ ?tl]) simp
qed


lemma refused_append [simp]: "refused (a @ b) = (refused a \<or> refused b)"
  by (auto simp: refused_def)

lemma aborts_only_on_refusal:
  assumes "process_and_upload_chunks E self w = (res, self', w')" and "isl res"
  shows "res \<in> {Inl TypeError, Inl FileNotFoundError, Inl StopIteration, Inl Csv_Error}
         \<or> refused (news w w')"
proof -
  define R where "R = (\<lambda>ok (s :: CsvUploader) w (s' :: CsvUploader) w'.
    grows w w' \<and> (\<not> ok \<longrightarrow> refused (news w w')))"
  have "R (\<not> isl res) self w self' w'
         \<or> (res \<in> {Inl TypeError, Inl FileNotFoundError, Inl StopIteration, Inl Csv_Error}
            \<and> R True self w self' w')"
  proof (rule process_rel [OF assms(1)])
    show "R True s w s w" for s w by (simp add: R_def)
  next
    fix ok a wa b wb c wc
    assume "R True a wa b wb" and "R ok b wb c wc"
    then show "R ok a wa c wc"
      using grows_trans [of wa wb wc] news_trans [of wa wb wc] by (auto simp: R_def)
  next
    fix r w0 assume "prepare_output_directory E self w = (r, w0)"
    then show "R True self w self w0"
      using prepare_news [of E self w r w0] by (simp add: R_def)
  next
    fix s wa chunk idx r wb od fn h
    assume "write_chunk E chunk idx h fn od wa = (r, wb)"
    then show "R (\<not> isl r) s wa s wb"
      using write_chunk_news [of E chunk idx h fn od wa r wb] by (simp add: R_def refused_def)
  next
    fix s wa name od r s1 wb
    assume "upload_csv_file E s wa name od = (r, s1, wb)"
    then obtain w1 tl where "http_only s wa s1 w1" "grows wa wb" "news wa wb = news wa w1 @ tl"
      "moves tl = (if isl r
                          then [(os_path_join od name,
                                 os_path_join (os_path_join od (PROCESSED_DIR s)) name, False)]
                          else moves tl)"
      using upload_csv_file_news [of E s wa name od r s1 wb] by blast
    then show "R (\<not> isl r) s wa s1 wb"
      by (cases "isl r") (simp_all add: R_def refused_def)
  qed
  then show ?thesis
    using assms(2) by (auto simp: R_def)
qed

subsection \<open>Evaluating the program on the example inputs\<close>

lemmas path_simps = os_path_join_def basename_def dirname_def splitext_root_def
  after_last_slash_def string_of_nat.simps

lemmas run_simps = process_and_upload_chunks_def prepare_output_directory_def write_chunk_def
  upload_csv_file_def upload_call_def upload_call_from.simps upload_call_body_def
  generate_jwt_def shutil_move_def issued_def emit_def news_def upload_url_def Let_def

lemmas ex_simps = ex_self_def ex_world_def ex_chunk_world_def ex_empty_world_def env_ok_def
  env_500_def env_401_once_def env_auth_down_def env_move_refused_def env_creds_def reply_def

lemma row_size_ex [simp]: "row_size ex_row = 5" "row_size ex_header = 8"
  by (simp_all add: row_size_def ex_row_def ex_header_def encode_utf8_def utf8_bytes_def)

lemma fields_of_ex [simp]: "\<not> field_too_large ex_row" "\<not> field_too_large ex_header"
  by (simp_all add: field_too_large_def field_size_limit_def ex_row_def ex_header_def)

text \<open>The size of a row of equal fields of ASCII letters, and the two wide rows.\<close>

lemma encode_utf8_append: "encode_utf8 (a @ b) = encode_utf8 a @ encode_utf8 b"
  by (simp add: encode_utf8_def)

lemma encode_utf8_ascii: "c < 128 \<Longrightarrow> length (encode_utf8 (replicate n c)) = n"
  by (induction n) (simp_all add: encode_utf8_def utf8_bytes_def)

lemma joined_fields_size:
  "c < 128 \<Longrightarrow>
   length (encode_utf8 (str_join [44] (replicate (Suc n) (replicate m c)))) = Suc n * m + n"
proof (induction n)
  case 0
  then show ?case by (simp add: encode_utf8_ascii)
next
  case (Suc n)
  have comma: "encode_utf8 (44 # xs) = 44 # encode_utf8 xs" for xs
    by (simp add: encode_utf8_def utf8_bytes_def)
  have "str_join [44] (replicate (Suc (Suc n)) (replicate m c))
        = replicate m c @ 44 # str_join [44] (replicate (Suc n) (replicate m c))"
    by simp
  then show ?case
    using Suc by (simp add: encode_utf8_append encode_utf8_ascii comma del: str_join.simps)
qed

lemma row_size_wide [simp]: "row_size wide_a = 4847037" "row_size wide_b = 4847037"
proof -
  have n: "(37::nat) = Suc 36" by simp
  show "row_size wide_a = 4847037" "row_size wide_b = 4847037"
    unfolding row_size_def wide_a_def wide_b_def n by (simp_all only: joined_fields_size) simp_all
qed

lemma fields_of_wide [simp]: "\<not> field_too_large wide_a" "\<not> field_too_large wide_b"
  by (simp_all add: field_too_large_def field_size_limit_def wide_a_def wide_b_def list_ex_iff)

lemma wide_a_neq_wide_b: "wide_a \<noteq> wide_b"
proof
  assume "wide_a = wide_b"
  then have "hd (hd wide_a) = hd (hd wide_b)" by simp
  then show False
    by (simp add: wide_a_def wide_b_def)
qed

section \<open>Credentials from the environment\<close>

text \<open>
  Claim C8. When both names of credential variables are configured and one of the two
  variables is not set in the environment, \<open>__init__\<close> raises \<open>RuntimeError\<close>, and up to
  that point it has done nothing but log one line: no authentication request and no
  upload request has been sent.
\<close>

theorem init_fails_before_any_request:
  assumes "arg_envQualysUsernameProperty a = Some uprop"
    and "arg_envQualysPasswordProperty a = Some pprop"
    and "getenv E uprop = None \<or> getenv E pprop = None"
  shows "init E a w = (Inl RuntimeError, emit [Log INFO Reading_env] w)
         \<and> auths (news w (snd (init E a w))) = []
         \<and> uploads (news w (snd (init E a w))) = []"
proof -
  have "init E a w = (Inl RuntimeError, emit [Log INFO Reading_env] w)"
    using assms by (auto simp: init_def fill_username_password_def Let_def)
  then show ?thesis by simp
qed

theorem init_fails_before_any_request_witness:
  "arg_envQualysUsernameProperty ex_args = Some ''QUSER''
   \<and> arg_envQualysPasswordProperty ex_args = Some ''QPASS''
   \<and> (getenv env_ok ''QUSER'' = None \<or> getenv env_ok ''QPASS'' = None)
   \<and> init env_ok ex_args ex_world = (Inl RuntimeError, emit [Log INFO Reading_env] ex_world)
   \<and> auths (news ex_world (snd (init env_ok ex_args ex_world))) = []
   \<and> uploads (news ex_world (snd (init env_ok ex_args ex_world))) = []"
proof -
  have h1: "arg_envQualysUsernameProperty ex_args = Some ''QUSER''"
    and h2: "arg_envQualysPasswordProperty ex_args = Some ''QPASS''"
    by (simp_all add: ex_args_def)
  have h3: "getenv env_ok ''QUSER'' = None \<or> getenv env_ok ''QPASS'' = None"
    by (simp add: env_ok_def)
  show ?thesis
    using h1 h2 h3 init_fails_before_any_request [OF h1 h2 h3, of ex_world] by simp
qed

section \<open>The retry budget\<close>

text \<open>
  When the chunk file is there and none of the next three replies is a 200, the three
  attempts are used and \<open>upload_csv_file\<close> returns normally, having logged the failure
  and moved nothing.
\<close>

lemma upload_csv_file_exhausted:
  assumes u: "upload_csv_file E self w fn od = (res, self', w')"
    and f: "files w (os_path_join od fn) \<noteq> None"
    and n: "\<forall>i<3. \<not> is_200 (upload_reply E (length (uploads (trace w)) + i))"
  shows "res = Inr () \<and> length (uploads (news w w')) = 3 \<and> moves (news w w') = []
         \<and> last (trace w') = Log ERROR (Failed_to_upload (os_path_join od fn))"
proof -
  obtain c where c: "files w (os_path_join od fn) = Some c"
    using f by blast
  obtain r1 s1 w1 where uc: "upload_call_from 1 E self w (os_path_join od fn) fn = (r1, s1, w1)"
    by (cases "upload_call_from 1 E self w (os_path_join od fn) fn") auto
  have af: "r1 = Inl RetryError \<and> length (uploads (news w w1)) = Suc (3 - 1)"
    using uc c
  proof (rule from_all_fail)
    show "(1::nat) \<le> 3" by simp
    fix i :: nat assume "i \<le> 3 - 1"
    then show "\<not> is_200 (upload_reply E (length (uploads (trace w)) + i))"
      using n by simp
  qed
  have ho: "http_only self w s1 w1"
    using uc by (rule from_http_only)
  have eq: "upload_csv_file E self w fn od
            = (Inr (), s1, emit [Log ERROR (Failed_to_upload (os_path_join od fn))] w1)"
    using uc af by (simp add: upload_csv_file_def upload_call_def Let_def)
  show ?thesis
    using u af ho unfolding eq by (auto simp: http_only_def)
qed

text \<open>
  Claim C5. \<open>upload_csv_file\<close> sends at most three upload requests for a chunk. When the
  chunk file is there and none of the next three replies is a 200 (a transport error, a
  401 and any other status all count), all three attempts are used, nothing is moved,
  the call returns normally and its last act is to log the chunk as failed. The loop
  then goes on: when a row triggers a seal, the chunk is written, and its three uploads
  fail, the loop over that row and the rows after it is the loop over the rows after
  it, started from the state that the failed upload left, with the triggering row as
  the new buffer and the next chunk index. A whole run ends with an exception only when
  the source could not be read or when the operating system refused a chunk write or a
  move: no reply to an upload ends the run.
\<close>

theorem retry_budget:
  "(case upload_csv_file E self w fn od of
      (res, self', w') \<Rightarrow>
        length (uploads (news w w')) \<le> 3
        \<and> (files w (os_path_join od fn) \<noteq> None
             \<and> (\<forall>i<3. \<not> is_200 (upload_reply E (length (uploads (trace w)) + i)))
           \<longrightarrow> res = Inr () \<and> length (uploads (news w w')) = 3
               \<and> moves (news w w') = []
               \<and> last (trace w') = Log ERROR (Failed_to_upload (os_path_join od fn))))
   \<and> (\<not> field_too_large row \<and> MAX_CHUNK_SIZE s < sz + row_size row
       \<and> \<not> write_raises F (length (writes (trace v)))
       \<and> (\<forall>i<3. \<not> is_200 (upload_reply F (length (uploads (trace v)) + i)))
      \<longrightarrow>
        (case write_chunk F (buffer @ [row]) (idx + 1) headers filename output_dir v of
           (wres, v1) \<Rightarrow>
             wres = Inr (filename @ ''_'' @ string_of_nat (idx + 1) @ ''.csv'')
             \<and> (case upload_csv_file F s v1
                         (filename @ ''_'' @ string_of_nat (idx + 1) @ ''.csv'') output_dir of
                  (ures, s2, v2) \<Rightarrow>
                    ures = Inr ()
                    \<and> length (uploads (news v v2)) = 3
                    \<and> last (trace v2) =
                        Log ERROR (Failed_to_upload (os_path_join output_dir
                          (filename @ ''_'' @ string_of_nat (idx + 1) @ ''.csv'')))
                    \<and> for_rows F headers filename output_dir (row # rest) (buffer, sz, idx) s v
                        = for_rows F headers filename output_dir rest
                            ([row], row_size row, idx + 1) s2 v2)))
   \<and> (case process_and_upload_chunks E_run self_run w_run of
        (res, self', w') \<Rightarrow>
          isl res \<longrightarrow>
            res \<in> {Inl TypeError, Inl FileNotFoundError, Inl StopIteration, Inl Csv_Error}
            \<or> refused (news w_run w'))"
proof -
  obtain res self' w' where u: "upload_csv_file E self w fn od = (res, self', w')"
    by (cases "upload_csv_file E self w fn od") auto
  have bound: "length (uploads (news w w')) \<le> 3"
    using u
  proof (cases rule: upload_csv_file_cases)
    case (exhausted w1)
    have "grows w w1"
      using from_http_only [OF exhausted(1) [unfolded upload_call_def]] by (simp add: http_only_def)
    then show ?thesis
      using from_result [OF exhausted(1) [unfolded upload_call_def]] exhausted(3) by simp
  next
    case (move_failed r w1)
    have "grows w w1"
      using from_http_only [OF move_failed(1) [unfolded upload_call_def]]
      by (simp add: http_only_def)
    then show ?thesis
      using from_result [OF move_failed(1) [unfolded upload_call_def]] move_failed(4) by simp
  next
    case (moved r w1 c)
    have "grows w w1"
      using from_http_only [OF moved(1) [unfolded upload_call_def]] by (simp add: http_only_def)
    then show ?thesis
      using from_result [OF moved(1) [unfolded upload_call_def]] moved(5) by simp
  qed
  have fail: "res = Inr () \<and> length (uploads (news w w')) = 3 \<and> moves (news w w') = []
              \<and> last (trace w') = Log ERROR (Failed_to_upload (os_path_join od fn))"
    if "files w (os_path_join od fn) \<noteq> None"
      and "\<forall>i<3. \<not> is_200 (upload_reply E (length (uploads (trace w)) + i))"
    using u that by (rule upload_csv_file_exhausted)
  let ?name = "filename @ ''_'' @ string_of_nat (idx + 1) @ ''.csv''"
  let ?path = "os_path_join output_dir ?name"
  obtain wres v1 where wc:
    "write_chunk F (buffer @ [row]) (idx + 1) headers filename output_dir v = (wres, v1)"
    by (cases "write_chunk F (buffer @ [row]) (idx + 1) headers filename output_dir v") auto
  obtain ures s2 v2 where uc: "upload_csv_file F s v1 ?name output_dir = (ures, s2, v2)"
    by (cases "upload_csv_file F s v1 ?name output_dir") auto
  have loop: "wres = Inr ?name \<and> ures = Inr () \<and> length (uploads (news v v2)) = 3
      \<and> last (trace v2) = Log ERROR (Failed_to_upload ?path)
      \<and> for_rows F headers filename output_dir (row # rest) (buffer, sz, idx) s v
          = for_rows F headers filename output_dir rest ([row], row_size row, idx + 1) s2 v2"
    if small: "\<not> field_too_large row" and over: "MAX_CHUNK_SIZE s < sz + row_size row"
      and nw: "\<not> write_raises F (length (writes (trace v)))"
      and nu: "\<forall>i<3. \<not> is_200 (upload_reply F (length (uploads (trace v)) + i))"
  proof -
    note wd = write_done [OF nw, of "buffer @ [row]" "idx + 1" headers filename output_dir]
    have wres: "wres = Inr ?name" and f1: "files v1 ?path \<noteq> None"
      using wc unfolding wd by auto
    note wn = write_chunk_news [OF wc, of "[]"]
    have t1: "trace v1 = trace v @ news v v1" and up1: "uploads (news v v1) = []"
      using wn growsD [of v v1] by simp_all
    then have "uploads (trace v1) = uploads (trace v)"
      by (metis append_Nil2 uploads_append)
    then have nu1: "\<forall>i<3. \<not> is_200 (upload_reply F (length (uploads (trace v1)) + i))"
      using nu by simp
    note ex = upload_csv_file_exhausted [OF uc f1 nu1]
    obtain w1 tl where g2: "grows v1 v2"
      using upload_csv_file_news [OF uc] by blast
    have "news v v2 = news v v1 @ news v1 v2"
      using wn g2 by (intro news_trans) simp_all
    then have cnt: "length (uploads (news v v2)) = 3"
      using ex up1 by simp
    have "for_rows F headers filename output_dir (row # rest) (buffer, sz, idx) s v
          = for_rows F headers filename output_dir rest ([row], row_size row, idx + 1) s2 v2"
      using small over wc wres uc ex by (simp add: Let_def)
    then show ?thesis
      using wres ex cnt by simp
  qed
  obtain pres pself pw where p: "process_and_upload_chunks E_run self_run w_run = (pres, pself, pw)"
    by (cases "process_and_upload_chunks E_run self_run w_run") auto
  have c1: "case upload_csv_file E self w fn od of
      (res, self', w') \<Rightarrow>
        length (uploads (news w w')) \<le> 3
        \<and> (files w (os_path_join od fn) \<noteq> None
             \<and> (\<forall>i<3. \<not> is_200 (upload_reply E (length (uploads (trace w)) + i)))
           \<longrightarrow> res = Inr () \<and> length (uploads (news w w')) = 3
               \<and> moves (news w w') = []
               \<and> last (trace w') = Log ERROR (Failed_to_upload (os_path_join od fn)))"
    unfolding u prod.case using bound fail by blast
  have c2: "\<not> field_too_large row \<and> MAX_CHUNK_SIZE s < sz + row_size row
       \<and> \<not> write_raises F (length (writes (trace v)))
       \<and> (\<forall>i<3. \<not> is_200 (upload_reply F (length (uploads (trace v)) + i)))
      \<longrightarrow>
        (case write_chunk F (buffer @ [row]) (idx + 1) headers filename output_dir v of
           (wres, v1) \<Rightarrow>
             wres = Inr ?name
             \<and> (case upload_csv_file F s v1 ?name output_dir of
                  (ures, s2, v2) \<Rightarrow>
                    ures = Inr ()
                    \<and> length (uploads (news v v2)) = 3
                    \<and> last (trace v2) = Log ERROR (Failed_to_upload ?path)
                    \<and> for_rows F headers filename output_dir (row # rest) (buffer, sz, idx) s v
                        = for_rows F headers filename output_dir rest
                            ([row], row_size row, idx + 1) s2 v2))"
    unfolding wc prod.case uc using loop by blast
  have c3: "case process_and_upload_chunks E_run self_run w_run of
        (res, self', w') \<Rightarrow>
          isl res \<longrightarrow>
            res \<in> {Inl TypeError, Inl FileNotFoundError, Inl StopIteration, Inl Csv_Error}
            \<or> refused (news w_run w')"
    unfolding p prod.case using aborts_only_on_refusal [OF p] by blast
  show ?thesis
    using c1 c2 c3 by blast
qed

theorem retry_budget_witness:
  "files ex_chunk_world (os_path_join ''data/in_20240101_000000'' ''in_1.csv'') \<noteq> None
   \<and> \<not> is_200 (upload_reply env_500 0) \<and> \<not> is_200 (upload_reply env_500 1)
   \<and> \<not> is_200 (upload_reply env_500 2)
   \<and> fst (upload_csv_file env_500 ex_self ex_chunk_world ''in_1.csv''
             ''data/in_20240101_000000'') = Inr ()
   \<and> length (uploads (news ex_chunk_world (snd (snd (upload_csv_file env_500 ex_self
         ex_chunk_world ''in_1.csv'' ''data/in_20240101_000000''))))) = 3
   \<and> \<not> field_too_large wide_b
   \<and> MAX_CHUNK_SIZE ex_self < 4847037 + row_size wide_b
   \<and> \<not> write_raises env_500 (length (writes (trace ex_world_wide2)))
   \<and> fst (for_rows env_500 ex_header ''in'' ''data/in_20240101_000000'' [wide_b]
            ([wide_a, wide_a], 4847037, 0) ex_self ex_world_wide2)
       = Inr ([wide_b], 4847037, 1)
   \<and> fst (process_and_upload_chunks env_500 ex_self ex_world_wide2) = Inr ()
   \<and> writes (news ex_world_wide2
         (snd (snd (process_and_upload_chunks env_500 ex_self ex_world_wide2))))
       = [(''data/in_20240101_000000/in_1.csv'', [ex_header, wide_a, wide_a, wide_b], True),
          (''data/in_20240101_000000/in_2.csv'', [ex_header, wide_b], True)]
   \<and> map fst (uploads (news ex_world_wide2
         (snd (snd (process_and_upload_chunks env_500 ex_self ex_world_wide2)))))
       = [''in_1.csv'', ''in_1.csv'', ''in_1.csv'', ''in_2.csv'', ''in_2.csv'', ''in_2.csv'']
   \<and> fst (process_and_upload_chunks env_move_refused ex_self ex_world) = Inl OSError
   \<and> refused (news ex_world (snd (snd (process_and_upload_chunks env_move_refused ex_self
         ex_world))))"
proof -
  have h1: "files ex_chunk_world (os_path_join ''data/in_20240101_000000'' ''in_1.csv'') \<noteq> None"
    by (simp add: ex_simps path_simps)
  have h2: "\<forall>i<3. \<not> is_200 (upload_reply env_500 (length (uploads (trace ex_chunk_world)) + i))"
    "\<forall>i<3. \<not> is_200 (upload_reply env_500 (length (uploads (trace ex_world_wide2)) + i))"
    by (simp_all add: ex_simps is_200_def)
  have h3: "fst (process_and_upload_chunks env_move_refused ex_self ex_world) = Inl OSError"
    by (simp add: run_simps path_simps ex_simps cong: let_weak_cong prod.case_cong_weak)
  have h4: "\<not> is_200 (upload_reply env_500 0) \<and> \<not> is_200 (upload_reply env_500 1)
            \<and> \<not> is_200 (upload_reply env_500 2)"
    by (simp add: ex_simps is_200_def)
  have h5: "\<not> field_too_large wide_b"
    "MAX_CHUNK_SIZE ex_self < 4847037 + row_size wide_b"
    "\<not> write_raises env_500 (length (writes (trace ex_world_wide2)))"
    by (simp_all add: ex_simps)
  have h6: "fst (process_and_upload_chunks env_500 ex_self ex_world_wide2) = Inr ()
   \<and> writes (news ex_world_wide2
         (snd (snd (process_and_upload_chunks env_500 ex_self ex_world_wide2))))
       = [(''data/in_20240101_000000/in_1.csv'', [ex_header, wide_a, wide_a, wide_b], True),
          (''data/in_20240101_000000/in_2.csv'', [ex_header, wide_b], True)]
   \<and> map fst (uploads (news ex_world_wide2
         (snd (snd (process_and_upload_chunks env_500 ex_self ex_world_wide2)))))
       = [''in_1.csv'', ''in_1.csv'', ''in_1.csv'', ''in_2.csv'', ''in_2.csv'', ''in_2.csv'']"
    by (simp add: run_simps path_simps ex_simps ex_world_wide2_def
          cong: let_weak_cong prod.case_cong_weak)
  note t = retry_budget [where E = env_500 and self = ex_self and w = ex_chunk_world
        and fn = "''in_1.csv''" and od = "''data/in_20240101_000000''"
        and F = env_500 and s = ex_self and v = ex_world_wide2 and row = wide_b
        and rest = "[]" and buffer = "[wide_a, wide_a]" and sz = 4847037 and idx = 0
        and headers = ex_header and filename = "''in''"
        and output_dir = "''data/in_20240101_000000''"
        and E_run = env_move_refused and self_run = ex_self and w_run = ex_world]
  have A: "fst (upload_csv_file env_500 ex_self ex_chunk_world ''in_1.csv''
             ''data/in_20240101_000000'') = Inr ()
   \<and> length (uploads (news ex_chunk_world (snd (snd (upload_csv_file env_500 ex_self
         ex_chunk_world ''in_1.csv'' ''data/in_20240101_000000''))))) = 3"
    using t h1 h2(1) by (simp add: case_prod_beta)
  have B: "fst (for_rows env_500 ex_header ''in'' ''data/in_20240101_000000'' [wide_b]
            ([wide_a, wide_a], 4847037, 0) ex_self ex_world_wide2)
       = Inr ([wide_b], 4847037, 1)"
    using t h5 h2(2) by (simp add: case_prod_beta del: for_rows.simps(2))
  have C: "refused (news ex_world (snd (snd (process_and_upload_chunks env_move_refused ex_self
         ex_world))))"
    using t h3 by (simp add: case_prod_beta)
  show ?thesis
    using h1 h3 h4 h5 h6 A B C by simp
qed

section \<open>The chunks of a source\<close>

text \<open>
  Claim C1, at a failing input. The source holds the header and one data row; the run
  writes one chunk file, and that file holds the data row twice. The data rows of the
  chunk files, put together, are not the data rows of the source: line 213 appends the
  row, and line 223 appends it again.
\<close>

theorem rows_written_twice:
  "files ex_world ''data/in.csv'' = Some [ex_header, ex_row]
   \<and> \<not> field_too_large ex_header \<and> \<not> field_too_large ex_row
   \<and> writes (news ex_world (snd (snd (process_and_upload_chunks env_ok ex_self ex_world))))
       = [(''data/in_20240101_000000/in_1.csv'', [ex_header, ex_row, ex_row], True)]"
  by (simp add: run_simps path_simps ex_simps cong: let_weak_cong prod.case_cong_weak)

text \<open>
  Claim C2, at a failing input. The source holds one data row of 37 fields of 131,000
  letters: every field is within the limit of the reader, and the row is 4,847,037
  bytes, below the ceiling of 9,437,184. The one chunk written holds it twice: two
  rows, and a row payload of 9,694,074 bytes, above the ceiling.
\<close>

theorem chunk_over_ceiling:
  "files ex_world_wide ''data/in.csv'' = Some [ex_header, wide_a]
   \<and> \<not> field_too_large ex_header \<and> \<not> field_too_large wide_a
   \<and> fst (process_and_upload_chunks env_ok ex_self ex_world_wide) = Inr ()
   \<and> writes (news ex_world_wide
         (snd (snd (process_and_upload_chunks env_ok ex_self ex_world_wide))))
     = [(''data/in_20240101_000000/in_1.csv'', [ex_header, wide_a, wide_a], True)]
   \<and> payload [wide_a, wide_a] = 9694074
   \<and> row_size wide_a = 4847037
   \<and> MAX_CHUNK_SIZE ex_self = 9437184"
  by (simp add: run_simps path_simps ex_simps ex_world_wide_def payload_def
      cong: let_weak_cong prod.case_cong_weak)

text \<open>
  Claim C3, at a failing input. The source holds two different data rows of 37 fields of
  131,000 letters, whose sizes together exceed the ceiling, so the second one triggers
  the seal. The chunk sealed at that moment holds the first row twice and the
  triggering row as well; the triggering row is then also the first row of the next
  chunk.
\<close>

theorem triggering_row_in_sealed_chunk:
  "files ex_world_wide2 ''data/in.csv'' = Some [ex_header, wide_a, wide_b]
   \<and> \<not> field_too_large ex_header \<and> \<not> field_too_large wide_a \<and> \<not> field_too_large wide_b
   \<and> fst (process_and_upload_chunks env_ok ex_self ex_world_wide2) = Inr ()
   \<and> writes (news ex_world_wide2
         (snd (snd (process_and_upload_chunks env_ok ex_self ex_world_wide2))))
     = [(''data/in_20240101_000000/in_1.csv'', [ex_header, wide_a, wide_a, wide_b], True),
        (''data/in_20240101_000000/in_2.csv'', [ex_header, wide_b], True)]
   \<and> row_size wide_a + row_size wide_b > MAX_CHUNK_SIZE ex_self
   \<and> wide_a \<noteq> wide_b"
  using wide_a_neq_wide_b
  by (simp add: run_simps path_simps ex_simps ex_world_wide2_def
      cong: let_weak_cong prod.case_cong_weak)

section \<open>A move that fails\<close>

text \<open>A run that returned normally had none of its moves refused.\<close>

lemma moves_ok_when_returned:
  assumes "process_and_upload_chunks E self w = (res, self', w')" and "\<not> isl res"
  shows "list_all (\<lambda>(s, d, ok). ok) (moves (news w w'))"
proof -
  define R where "R = (\<lambda>ok (s :: CsvUploader) w (s' :: CsvUploader) w'.
    grows w w' \<and> (ok \<longrightarrow> list_all (\<lambda>(s, d, ok). ok) (moves (news w w'))))"
  have "R (\<not> isl res) self w self' w'
         \<or> (res \<in> {Inl TypeError, Inl FileNotFoundError, Inl StopIteration, Inl Csv_Error}
            \<and> R True self w self' w')"
  proof (rule process_rel [OF assms(1)])
    show "R True s w s w" for s w by (simp add: R_def)
  next
    fix ok a wa b wb c wc
    assume "R True a wa b wb" and "R ok b wb c wc"
    then show "R ok a wa c wc"
      using grows_trans [of wa wb wc] news_trans [of wa wb wc] by (auto simp: R_def)
  next
    fix r w0 assume "prepare_output_directory E self w = (r, w0)"
    then show "R True self w self w0"
      using prepare_news [of E self w r w0] by (simp add: R_def)
  next
    fix s wa chunk idx r wb od fn h
    assume "write_chunk E chunk idx h fn od wa = (r, wb)"
    then show "R (\<not> isl r) s wa s wb"
      using write_chunk_news [of E chunk idx h fn od wa r wb] by (simp add: R_def)
  next
    fix s wa name od r s1 wb
    assume "upload_csv_file E s wa name od = (r, s1, wb)"
    then obtain w1 tl where "http_only s wa s1 w1" "grows wa wb" "news wa wb = news wa w1 @ tl"
      "list_all (\<lambda>(s, d, ok). ok = (\<not> isl r)) (moves tl)"
      using upload_csv_file_news [of E s wa name od r s1 wb] by blast
    then show "R (\<not> isl r) s wa s1 wb"
      by (cases "isl r") (simp_all add: R_def http_only_def)
  qed
  then show ?thesis
    using assms(2) by (auto simp: R_def)
qed

text \<open>
  Claim C9. When the upload of a chunk succeeded and the operating system refuses the
  move, \<open>upload_csv_file\<close> raises that error: it is an \<open>OSError\<close>, not the
  \<open>RetryError\<close> that the handler catches, and nothing is logged after the failed move.
  The loop has no handler either: a run in which a move was refused ends with an
  exception.
\<close>

theorem move_failure_propagates:
  "(case upload_call E self w (os_path_join od fn) fn of
      (ures, s1, w1) \<Rightarrow>
        \<not> isl ures \<and> move_raises E (length (moves (trace w))) \<longrightarrow>
          upload_csv_file E self w fn od =
            (Inl OSError, s1,
             emit [Move (os_path_join od fn)
                     (os_path_join (os_path_join od (PROCESSED_DIR self)) fn) False] w1)
          \<and> OSError \<noteq> RetryError)
   \<and> (case process_and_upload_chunks E_run self_run w_run of
        (res, self', w') \<Rightarrow>
          list_ex (\<lambda>(s, d, ok). \<not> ok) (moves (news w_run w')) \<longrightarrow> isl res)"
proof -
  obtain ures s1 w1 where u: "upload_call E self w (os_path_join od fn) fn = (ures, s1, w1)"
    by (cases "upload_call E self w (os_path_join od fn) fn") auto
  have ho: "http_only self w s1 w1"
    using u unfolding upload_call_def by (rule from_http_only)
  have first: "upload_csv_file E self w fn od =
            (Inl OSError, s1,
             emit [Move (os_path_join od fn)
                     (os_path_join (os_path_join od (PROCESSED_DIR self)) fn) False] w1)"
    if ok: "\<not> isl ures" and mv: "move_raises E (length (moves (trace w)))"
  proof -
    obtain r where r: "ures = Inr r" using ok by (cases ures) auto
    obtain c where c: "files w (os_path_join od fn) = Some c"
      using from_result [OF u [unfolded upload_call_def]] r by auto
    have c1: "files w1 (os_path_join od fn) = Some c"
      using c ho by (simp add: http_only_def)
    have "moves (trace w1) = moves (trace w)"
      using growsD [of w w1] ho by (simp add: http_only_def)
    then have mv1: "move_raises E (length (moves (trace w1)))"
      using mv by simp
    show ?thesis
      using u r move_raised [OF c1 mv1] by (simp add: upload_csv_file_def Let_def)
  qed
  obtain res self' w' where p: "process_and_upload_chunks E_run self_run w_run = (res, self', w')"
    by (cases "process_and_upload_chunks E_run self_run w_run") auto
  have second: "isl res" if "list_ex (\<lambda>(s, d, ok). \<not> ok) (moves (news w_run w'))"
  proof (rule ccontr)
    assume "\<not> isl res"
    then have "list_all (\<lambda>(s, d, ok). ok) (moves (news w_run w'))"
      using p by (intro moves_ok_when_returned)
    then show False
      using that by (auto simp: list_all_iff list_ex_iff)
  qed
  show ?thesis
    using first second by (simp add: u p)
qed

theorem move_failure_propagates_witness:
  "move_raises env_move_refused (length (moves (trace ex_chunk_world)))
   \<and> upload_csv_file env_move_refused ex_self ex_chunk_world ''in_1.csv''
         ''data/in_20240101_000000'' =
       (Inl OSError,
        fst (snd (upload_call env_move_refused ex_self ex_chunk_world
                    ''data/in_20240101_000000/in_1.csv'' ''in_1.csv'')),
        emit [Move ''data/in_20240101_000000/in_1.csv''
                ''data/in_20240101_000000/uploaded/in_1.csv'' False]
          (snd (snd (upload_call env_move_refused ex_self ex_chunk_world
                       ''data/in_20240101_000000/in_1.csv'' ''in_1.csv''))))
   \<and> isl (fst (process_and_upload_chunks env_move_refused ex_self ex_world))"
proof -
  have p: "os_path_join ''data/in_20240101_000000'' ''in_1.csv''
           = ''data/in_20240101_000000/in_1.csv''"
    "os_path_join (os_path_join ''data/in_20240101_000000'' (PROCESSED_DIR ex_self)) ''in_1.csv''
     = ''data/in_20240101_000000/uploaded/in_1.csv''"
    by (simp_all add: path_simps ex_self_def)
  have h1: "move_raises env_move_refused (length (moves (trace ex_chunk_world)))"
    by (simp add: ex_simps)
  have h2: "\<not> isl (fst (upload_call env_move_refused ex_self ex_chunk_world
                    ''data/in_20240101_000000/in_1.csv'' ''in_1.csv''))"
    by (simp add: run_simps ex_simps cong: let_weak_cong prod.case_cong_weak)
  have h3: "list_ex (\<lambda>(s, d, ok). \<not> ok) (moves (news ex_world
              (snd (snd (process_and_upload_chunks env_move_refused ex_self ex_world)))))"
    by (simp add: run_simps path_simps ex_simps cong: let_weak_cong prod.case_cong_weak)
  show ?thesis
    using h1 h2 h3
      move_failure_propagates [where E = env_move_refused and self = ex_self
        and w = ex_chunk_world and fn = "''in_1.csv''" and od = "''data/in_20240101_000000''"
        and E_run = env_move_refused and self_run = ex_self and w_run = ex_world]
    by (auto simp: p split: prod.splits)
qed

section \<open>Relocating a chunk\<close>





section \<open>The header of a chunk file\<close>

text \<open>
  Across a whole run, every chunk file that was written begins with the header row of
  the source: the row after the \<open>HEADER - 1\<close> skipped ones.
\<close>

lemma written_chunks_start_with_header:
  assumes run: "process_and_upload_chunks E self w = (res, self', w')"
    and src: "CSV_PATH self = Some p" "files w p = Some records"
      "drop (nat (HEADER self - 1)) records = h # data"
  shows "list_all (\<lambda>(q, c, ok). ok \<longrightarrow> c \<noteq> [] \<and> hd c = h) (writes (news w w'))"
proof -
  define R where "R = (\<lambda>(ok :: bool) (s :: CsvUploader) w (s' :: CsvUploader) w'.
    grows w w' \<and> list_all (\<lambda>(q, c, ok). ok \<longrightarrow> c \<noteq> [] \<and> hd c = h) (writes (news w w')))"
  have "R (\<not> isl res) self w self' w'
         \<or> (res \<in> {Inl TypeError, Inl FileNotFoundError, Inl StopIteration, Inl Csv_Error}
            \<and> R True self w self' w')"
  proof (rule process_rel [OF run])
    show "R True s w s w" for s w by (simp add: R_def)
  next
    fix ok a wa b wb c wc
    assume "R True a wa b wb" and "R ok b wb c wc"
    then show "R ok a wa c wc"
      using grows_trans [of wa wb wc] news_trans [of wa wb wc] by (auto simp: R_def)
  next
    fix r w0 assume "prepare_output_directory E self w = (r, w0)"
    then show "R True self w self w0"
      using prepare_news [of E self w r w0] by (simp add: R_def)
  next
    fix s wa chunk idx r wb od fn p' records' h' data'
    assume "CSV_PATH self = Some p'" "files w p' = Some records'"
      "drop (nat (HEADER self - 1)) records' = h' # data'"
    then have "h' = h" using src by simp
    moreover assume "write_chunk E chunk idx h' fn od wa = (r, wb)"
    ultimately show "R (\<not> isl r) s wa s wb"
      using write_chunk_news [of E chunk idx h fn od wa r wb] by (simp add: R_def)
  next
    fix s wa name od r s1 wb
    assume "upload_csv_file E s wa name od = (r, s1, wb)"
    then obtain w1 tl where "http_only s wa s1 w1" "grows wa wb" "news wa wb = news wa w1 @ tl"
      "writes tl = []"
      using upload_csv_file_news [of E s wa name od r s1 wb] by blast
    then show "R (\<not> isl r) s wa s1 wb"
      by (simp add: R_def http_only_def)
  qed
  then show ?thesis
    by (auto simp: R_def)
qed

text \<open>
  Claim C7. A call of \<open>_write_chunk\<close> that the operating system does not refuse leaves,
  at the path of the chunk, a file whose first record is the header it was given and
  whose other records are the rows of the buffer it was given, in order. In a run of
  \<open>process_and_upload_chunks\<close> every chunk file written begins with the header row
  captured from the source.
\<close>

theorem chunk_file_starts_with_header:
  "(\<not> write_raises E (length (writes (trace w))) \<longrightarrow>
      (case write_chunk E chunk chunk_index headers filename output_dir w of
         (r, w') \<Rightarrow>
           r = Inr (filename @ ''_'' @ string_of_nat chunk_index @ ''.csv'')
           \<and> files w' (os_path_join output_dir
                          (filename @ ''_'' @ string_of_nat chunk_index @ ''.csv''))
               = Some (headers # chunk)))
   \<and> (CSV_PATH self_run = Some p \<and> files w_run p = Some records
       \<and> drop (nat (HEADER self_run - 1)) records = h # data \<longrightarrow>
        (case process_and_upload_chunks E_run self_run w_run of
           (res, self', w') \<Rightarrow>
             list_all (\<lambda>(q, c, ok). ok \<longrightarrow> c \<noteq> [] \<and> hd c = h) (writes (news w_run w'))))"
proof -
  have first: "case write_chunk E chunk chunk_index headers filename output_dir w of
         (r, w') \<Rightarrow>
           r = Inr (filename @ ''_'' @ string_of_nat chunk_index @ ''.csv'')
           \<and> files w' (os_path_join output_dir
                          (filename @ ''_'' @ string_of_nat chunk_index @ ''.csv''))
               = Some (headers # chunk)"
    if nr: "\<not> write_raises E (length (writes (trace w)))"
    unfolding write_done [OF nr] by simp
  obtain res self' w' where
    run: "process_and_upload_chunks E_run self_run w_run = (res, self', w')"
    by (cases "process_and_upload_chunks E_run self_run w_run") auto
  show ?thesis
    using first written_chunks_start_with_header [OF run, of p records h data]
    by (simp add: run)
qed

theorem chunk_file_starts_with_header_witness:
  "\<not> write_raises env_ok (length (writes (trace ex_world)))
   \<and> files (snd (write_chunk env_ok [ex_row] 1 ex_header ''in'' ''data/in_20240101_000000''
                    ex_world)) ''data/in_20240101_000000/in_1.csv'' = Some [ex_header, ex_row]
   \<and> CSV_PATH ex_self = Some ''data/in.csv''
   \<and> files ex_world ''data/in.csv'' = Some [ex_header, ex_row]
   \<and> drop (nat (HEADER ex_self - 1)) [ex_header, ex_row] = [ex_header, ex_row]
   \<and> writes (news ex_world (snd (snd (process_and_upload_chunks env_ok ex_self ex_world))))
       = [(''data/in_20240101_000000/in_1.csv'', [ex_header, ex_row, ex_row], True)]
   \<and> list_all (\<lambda>c. c \<noteq> [] \<and> hd c = ex_header)
        (map (fst \<circ> snd)
           (writes (news ex_world (snd (snd (process_and_upload_chunks env_ok ex_self
              ex_world))))))"
proof -
  have h1: "\<not> write_raises env_ok (length (writes (trace ex_world)))"
    by (simp add: ex_simps)
  have h2: "CSV_PATH ex_self = Some ''data/in.csv''"
    "files ex_world ''data/in.csv'' = Some [ex_header, ex_row]"
    "drop (nat (HEADER ex_self - 1)) [ex_header, ex_row] = [ex_header, ex_row]"
    by (simp_all add: ex_simps)
  have h3: "writes (news ex_world (snd (snd (process_and_upload_chunks env_ok ex_self ex_world))))
       = [(''data/in_20240101_000000/in_1.csv'', [ex_header, ex_row, ex_row], True)]"
    by (simp add: run_simps path_simps ex_simps cong: let_weak_cong prod.case_cong_weak)
  have p: "os_path_join ''data/in_20240101_000000'' (''in'' @ ''_'' @ string_of_nat 1 @ ''.csv'')
           = ''data/in_20240101_000000/in_1.csv''"
    by (simp add: path_simps)
  note t = chunk_file_starts_with_header [where E = env_ok and w = ex_world
      and chunk = "[ex_row]" and chunk_index = 1 and headers = ex_header and filename = "''in''"
      and output_dir = "''data/in_20240101_000000''" and E_run = env_ok and self_run = ex_self
      and w_run = ex_world and p = "''data/in.csv''" and records = "[ex_header, ex_row]"
      and h = ex_header and data = "[ex_row]"]
  have A: "files (snd (write_chunk env_ok [ex_row] 1 ex_header ''in'' ''data/in_20240101_000000''
                    ex_world)) ''data/in_20240101_000000/in_1.csv'' = Some [ex_header, ex_row]"
    using t h1 p by (simp add: case_prod_beta)
  have "list_all (\<lambda>(q, c, ok). ok \<longrightarrow> c \<noteq> [] \<and> hd c = ex_header)
          (writes (news ex_world (snd (snd (process_and_upload_chunks env_ok ex_self ex_world)))))"
    using t h2 by (simp add: case_prod_beta)
  then have B: "list_all (\<lambda>c. c \<noteq> [] \<and> hd c = ex_header)
        (map (fst \<circ> snd)
           (writes (news ex_world (snd (snd (process_and_upload_chunks env_ok ex_self
              ex_world))))))"
    unfolding h3 by simp
  show ?thesis
    using h1 h2 h3 A B by simp
qed

section \<open>The session token\<close>

text \<open>A stretch of trace without an authentication request leaves the token in force.\<close>

lemma jwt_after_no_auth: "auths es = [] \<Longrightarrow> jwt_after cur es = cur"
  by (induction cur es rule: jwt_after.induct) auto

text \<open>
  Across a whole run: every upload request carries the token in force when it is sent,
  the token stored at the end is the one in force at the end, and there is one
  authentication request for each upload answered with 401.
\<close>

lemma tokens_across_run:
  assumes run: "process_and_upload_chunks E self w = (res, self', w')"
  shows "bearer_ok (generated_jwt self) (news w w')
         \<and> generated_jwt self' = jwt_after (generated_jwt self) (news w w')
         \<and> length (auths (news w w')) = n_401 (news w w')"
proof -
  define R where "R = (\<lambda>(ok :: bool) (s :: CsvUploader) w (s' :: CsvUploader) w'.
    grows w w' \<and> bearer_ok (generated_jwt s) (news w w')
    \<and> generated_jwt s' = jwt_after (generated_jwt s) (news w w')
    \<and> length (auths (news w w')) = n_401 (news w w'))"
  have "R (\<not> isl res) self w self' w'
         \<or> (res \<in> {Inl TypeError, Inl FileNotFoundError, Inl StopIteration, Inl Csv_Error}
            \<and> R True self w self' w')"
  proof (rule process_rel [OF run])
    show "R True s w s w" for s w by (simp add: R_def n_401_def)
  next
    fix ok a wa b wb c wc
    assume "R True a wa b wb" and "R ok b wb c wc"
    then show "R ok a wa c wc"
      using grows_trans [of wa wb wc] news_trans [of wa wb wc] by (auto simp: R_def)
  next
    fix r w0 assume "prepare_output_directory E self w = (r, w0)"
    then show "R True self w self w0"
      using prepare_news [of E self w r w0 "generated_jwt self"] by (simp add: R_def n_401_def)
  next
    fix s wa chunk idx r wb od fn h
    assume "write_chunk E chunk idx h fn od wa = (r, wb)"
    then show "R (\<not> isl r) s wa s wb"
      using write_chunk_news [of E chunk idx h fn od wa r wb "generated_jwt s"]
      by (simp add: R_def n_401_def)
  next
    fix s wa name od r s1 wb
    assume "upload_csv_file E s wa name od = (r, s1, wb)"
    then obtain w1 tl where "http_only s wa s1 w1" "grows wa wb" "news wa wb = news wa w1 @ tl"
      "auths tl = []" "uploads tl = []" "\<forall>j. bearer_ok j tl \<and> jwt_after j tl = j"
      using upload_csv_file_news [of E s wa name od r s1 wb] by blast
    then show "R (\<not> isl r) s wa s1 wb"
      by (simp add: R_def http_only_def n_401_def)
  qed
  then show ?thesis
    by (auto simp: R_def)
qed

text \<open>
  Claim C10. An attempt of \<open>upload_call\<close> that sends no request (the chunk file is not
  there) or whose reply is not a 401 (a 200, any other status, a transport error)
  leaves the stored token as it was and sends no authentication request. Across a whole
  run, over all chunks, every upload request carries the token in force when it is sent:
  the initial one until an authentication request is answered with a token, then that
  one until the next, so a replacement made during one chunk is the token of the chunks
  after it. There are as many authentication requests as uploads answered with 401; a
  run without a 401 ends with the token it started with.
\<close>

theorem token_changes_only_on_401:
  "(files w p = None \<or> \<not> is_401 (upload_reply E (length (uploads (trace w)))) \<longrightarrow>
      (case upload_call_body E self w p n of
         (res, s', w') \<Rightarrow> generated_jwt s' = generated_jwt self \<and> auths (news w w') = []))
   \<and> (case process_and_upload_chunks E_run self_run w_run of
        (res, self', w') \<Rightarrow>
          bearer_ok (generated_jwt self_run) (news w_run w')
          \<and> generated_jwt self' = jwt_after (generated_jwt self_run) (news w_run w')
          \<and> length (auths (news w_run w')) = n_401 (news w_run w')
          \<and> (n_401 (news w_run w') = 0 \<longrightarrow> generated_jwt self' = generated_jwt self_run))"
proof -
  obtain res s' w' where b: "upload_call_body E self w p n = (res, s', w')"
    by (cases "upload_call_body E self w p n") auto
  have first: "generated_jwt s' = generated_jwt self \<and> auths (news w w') = []"
    if h: "files w p = None \<or> \<not> is_401 (upload_reply E (length (uploads (trace w))))"
  proof (cases rule: body_cases [where w = w and p = p and E = E])
    case no_file
    then show ?thesis using b by (simp add: body_no_file)
  next
    case (transport f)
    then show ?thesis using b by (auto simp: body_transport)
  next
    case (ok f r)
    then show ?thesis using b by (auto simp: body_200)
  next
    case (expired f r)
    then show ?thesis using h by (simp add: is_401_def)
  next
    case (other f r)
    then show ?thesis using b by (auto simp: body_other)
  qed
  obtain pres pself pw where
    run: "process_and_upload_chunks E_run self_run w_run = (pres, pself, pw)"
    by (cases "process_and_upload_chunks E_run self_run w_run") auto
  note t = tokens_across_run [OF run]
  have "generated_jwt pself = generated_jwt self_run" if "n_401 (news w_run pw) = 0"
    using t that jwt_after_no_auth [of "news w_run pw" "generated_jwt self_run"] by simp
  then show ?thesis
    using first t by (simp add: b run)
qed


theorem token_changes_only_on_401_witness:
  "\<not> is_401 (upload_reply env_ok (length (uploads (trace ex_chunk_world))))
   \<and> generated_jwt (fst (snd (upload_call_body env_ok ex_self ex_chunk_world
          ''data/in_20240101_000000/in_1.csv'' ''in_1.csv''))) = generated_jwt ex_self
   \<and> map (fst \<circ> snd) (uploads (news ex_world_wide2
          (snd (snd (process_and_upload_chunks env_401_once ex_self ex_world_wide2)))))
       = [''Bearer old'', ''Bearer new'', ''Bearer new'']
   \<and> map fst (uploads (news ex_world_wide2
          (snd (snd (process_and_upload_chunks env_401_once ex_self ex_world_wide2)))))
       = [''in_1.csv'', ''in_1.csv'', ''in_2.csv'']
   \<and> bearer_ok (generated_jwt ex_self) (news ex_world_wide2
          (snd (snd (process_and_upload_chunks env_401_once ex_self ex_world_wide2))))
   \<and> generated_jwt (fst (snd (process_and_upload_chunks env_401_once ex_self ex_world_wide2)))
       = ''new''"
proof -
  have h1: "\<not> is_401 (upload_reply env_ok (length (uploads (trace ex_chunk_world))))"
    by (simp add: ex_simps is_401_def)
  have h2: "map (fst \<circ> snd) (uploads (news ex_world_wide2
          (snd (snd (process_and_upload_chunks env_401_once ex_self ex_world_wide2)))))
       = [''Bearer old'', ''Bearer new'', ''Bearer new'']
     \<and> map fst (uploads (news ex_world_wide2
          (snd (snd (process_and_upload_chunks env_401_once ex_self ex_world_wide2)))))
       = [''in_1.csv'', ''in_1.csv'', ''in_2.csv'']
     \<and> generated_jwt (fst (snd (process_and_upload_chunks env_401_once ex_self ex_world_wide2)))
       = ''new''"
    by (simp add: run_simps path_simps ex_simps ex_world_wide2_def
          cong: let_weak_cong prod.case_cong_weak)
  note t = token_changes_only_on_401 [where E = env_ok and self = ex_self
      and w = ex_chunk_world and p = "''data/in_20240101_000000/in_1.csv''"
      and n = "''in_1.csv''" and E_run = env_401_once and self_run = ex_self
      and w_run = ex_world_wide2]
  show ?thesis
    using h1 h2 t by (simp add: case_prod_beta)
qed

text \<open>
  Claim C4 as stated fails on the code when the re-authentication itself fails. Below,
  every upload is answered with 401 and the authentication endpoint cannot be reached:
  one authentication request is sent for the 401, no token is issued, the stored token
  stays \<open>old\<close>, and all three attempts for the chunk carry \<open>Bearer old\<close>.
\<close>

theorem reauthentication_fails_counterexample:
  "files ex_chunk_world ''data/in_20240101_000000/in_1.csv'' = Some [ex_header, ex_row]
   \<and> upload_reply env_auth_down 0 = Some \<lparr>status_code = 401, resp_text = []\<rparr>
   \<and> generated_jwt ex_self = ''old''
   \<and> generated_jwt (fst (snd (upload_call_body env_auth_down ex_self ex_chunk_world
          ''data/in_20240101_000000/in_1.csv'' ''in_1.csv''))) = ''old''
   \<and> auths (news ex_chunk_world (snd (snd (upload_call_body env_auth_down ex_self
          ex_chunk_world ''data/in_20240101_000000/in_1.csv'' ''in_1.csv'')))) = [None]
   \<and> map (fst \<circ> snd) (uploads (news ex_chunk_world (snd (snd (upload_call env_auth_down
          ex_self ex_chunk_world ''data/in_20240101_000000/in_1.csv'' ''in_1.csv'')))))
       = [''Bearer old'', ''Bearer old'', ''Bearer old'']"
  by (simp add: run_simps ex_simps cong: let_weak_cong prod.case_cong_weak)

text \<open>
  Claim C4, amended. An attempt that receives a 401 sends exactly one authentication
  request and raises, and the raised exception is retried while the attempt number is
  below 3. When the authentication request is answered with a token, that token
  replaces the stored one; when it fails (\<open>_generate_jwt\<close> raises), the stored token is
  unchanged. Every attempt for the chunk carries the token in force when it is sent,
  that is the one issued by the latest answered authentication request.
\<close>

theorem reauthentication_on_401:
  "(files w p \<noteq> None \<and> is_401 (upload_reply E (length (uploads (trace w)))) \<longrightarrow>
      (case upload_call_body E self w p n of
         (res, s', w') \<Rightarrow>
           auths (news w w') = [auth_reply E (length (auths (trace w)))]
           \<and> isl res
           \<and> generated_jwt s' =
               (case issued (auth_reply E (length (auths (trace w)))) of
                  Inr jwt \<Rightarrow> jwt
                | Inl e \<Rightarrow> generated_jwt self)
           \<and> (\<forall>k<3. upload_call_from k E self w p n =
                  upload_call_from (k + 1) E s'
                    (emit [Log INFO (Before_sleep k), Sleep (10 * 2 ^ (k - 1))] w') p n)))
   \<and> (case upload_call E self w p n of
        (res, s', w') \<Rightarrow>
          bearer_ok (generated_jwt self) (news w w')
          \<and> generated_jwt s' = jwt_after (generated_jwt self) (news w w')
          \<and> length (auths (news w w')) = n_401 (news w w'))"
proof -
  obtain res s' w' where b: "upload_call_body E self w p n = (res, s', w')"
    by (cases "upload_call_body E self w p n") auto
  have first: "auths (news w w') = [auth_reply E (length (auths (trace w)))]
           \<and> isl res
           \<and> generated_jwt s' =
               (case issued (auth_reply E (length (auths (trace w)))) of
                  Inr jwt \<Rightarrow> jwt
                | Inl e \<Rightarrow> generated_jwt self)
           \<and> (\<forall>k<3. upload_call_from k E self w p n =
                  upload_call_from (k + 1) E s'
                    (emit [Log INFO (Before_sleep k), Sleep (10 * 2 ^ (k - 1))] w') p n)"
    if f: "files w p \<noteq> None" and e: "is_401 (upload_reply E (length (uploads (trace w))))"
  proof -
    obtain c where c: "files w p = Some c" using f by blast
    obtain r where r: "upload_reply E (length (uploads (trace w))) = Some r"
      "status_code r = 401"
      using e by (auto simp: is_401_def split: option.splits)
    note eq = body_401 [OF c r, of self n]
    have parts: "auths (news w w') = [auth_reply E (length (auths (trace w)))]"
      "isl res"
      "generated_jwt s' =
               (case issued (auth_reply E (length (auths (trace w)))) of
                  Inr jwt \<Rightarrow> jwt
                | Inl e \<Rightarrow> generated_jwt self)"
      using b unfolding eq
      by (cases "issued (auth_reply E (length (auths (trace w))))"; auto)+
    obtain x where x: "res = Inl x" using parts(2) by (cases res) auto
    have "upload_call_from k E self w p n =
                  upload_call_from (k + 1) E s'
                    (emit [Log INFO (Before_sleep k), Sleep (10 * 2 ^ (k - 1))] w') p n"
      if "k < 3" for k
      using that b x by (subst upload_call_from.simps) simp
    then show ?thesis using parts by blast
  qed
  obtain ures us uw where u: "upload_call E self w p n = (ures, us, uw)"
    by (cases "upload_call E self w p n") auto
  have "http_only self w us uw"
    using u unfolding upload_call_def by (rule from_http_only)
  then show ?thesis
    using first by (simp add: b u http_only_def)
qed

theorem reauthentication_on_401_witness:
  "files ex_chunk_world ''data/in_20240101_000000/in_1.csv'' \<noteq> None
   \<and> is_401 (upload_reply env_401_once (length (uploads (trace ex_chunk_world))))
   \<and> auths (news ex_chunk_world (snd (snd (upload_call_body env_401_once ex_self
          ex_chunk_world ''data/in_20240101_000000/in_1.csv'' ''in_1.csv''))))
       = [Some \<lparr>status_code = 200, resp_text = ''new''\<rparr>]
   \<and> isl (fst (upload_call_body env_401_once ex_self ex_chunk_world
          ''data/in_20240101_000000/in_1.csv'' ''in_1.csv''))
   \<and> generated_jwt (fst (snd (upload_call_body env_401_once ex_self ex_chunk_world
          ''data/in_20240101_000000/in_1.csv'' ''in_1.csv''))) = ''new''
   \<and> bearer_ok (generated_jwt ex_self) (news ex_chunk_world (snd (snd (upload_call
          env_401_once ex_self ex_chunk_world ''data/in_20240101_000000/in_1.csv''
          ''in_1.csv''))))
   \<and> map (fst \<circ> snd) (uploads (news ex_chunk_world (snd (snd (upload_call env_401_once
          ex_self ex_chunk_world ''data/in_20240101_000000/in_1.csv'' ''in_1.csv'')))))
       = [''Bearer old'', ''Bearer new'']"
proof -
  have h1: "files ex_chunk_world ''data/in_20240101_000000/in_1.csv'' \<noteq> None"
    by (simp add: ex_simps)
  have h2: "is_401 (upload_reply env_401_once (length (uploads (trace ex_chunk_world))))"
    by (simp add: ex_simps is_401_def)
  have h3: "issued (auth_reply env_401_once (length (auths (trace ex_chunk_world))))
            = Inr ''new''"
    "auth_reply env_401_once (length (auths (trace ex_chunk_world)))
            = Some \<lparr>status_code = 200, resp_text = ''new''\<rparr>"
    by (simp_all add: ex_simps issued_def)
  have h4: "map (fst \<circ> snd) (uploads (news ex_chunk_world (snd (snd (upload_call env_401_once
          ex_self ex_chunk_world ''data/in_20240101_000000/in_1.csv'' ''in_1.csv'')))))
       = [''Bearer old'', ''Bearer new'']"
    by (simp add: run_simps ex_simps cong: let_weak_cong prod.case_cong_weak)
  note t = reauthentication_on_401 [where E = env_401_once and self = ex_self
      and w = ex_chunk_world and p = "''data/in_20240101_000000/in_1.csv''"
      and n = "''in_1.csv''"]
  show ?thesis
    using h1 h2 h3 h4 t by (simp add: case_prod_beta)
qed

end
